theory Spec2Isabelle
  imports Main "HOL-Library.Word"
begin

unbundle bit_operations_syntax

section \<open>The value model of upb: core/upb\_msg.h\<close>

text \<open>
  The header defines the inline operations on values, arrays and messages. It works on
  raw memory: objects are reached through pointers, every managed object starts with its
  reference count, and field values are read and written at byte offsets that the schema
  supplies. The embedding keeps this shape:
  \<^item> a pointer is a 64-bit word, 0 being \<open>NULL\<close>;
  \<^item> the heap maps the address of each live managed object to its reference count and
    its body; it also holds a log for the destructors and the allocator's next address;
  \<^item> every access the C code makes without a check (a null or dangling pointer, an
    offset outside the allocated block) and every \<open>assert\<close> is a branch that returns
    a fault.
  Source names are kept; the leading underscore of the internal functions
  (\<open>_upb_value_ref\<close>, \<open>_upb_field_unref\<close>, ...) is dropped, since an Isabelle name
  cannot start with one.
\<close>

subsection \<open>Faults\<close>

datatype fault =
    Null_deref      \<comment> \<open>a null pointer is dereferenced\<close>
  | Dangling        \<comment> \<open>the pointer does not address a live object of the kind accessed\<close>
  | Out_of_bounds   \<comment> \<open>an access outside the allocated block\<close>
  | Assert_failed   \<comment> \<open>an \<open>assert\<close> of the source fails\<close>
  | Out_of_memory   \<comment> \<open>the allocator has no address left\<close>

definition bindE :: "fault + 'a \<Rightarrow> ('a \<Rightarrow> fault + 'b) \<Rightarrow> fault + 'b" where
  "bindE m k = (case m of Inl e \<Rightarrow> Inl e | Inr x \<Rightarrow> k x)"

subsection \<open>Schema metadata (upb\_def.h, consumed read-only)\<close>

type_synonym byte = "8 word"
type_synonym addr = "64 word"

text \<open>
  \<open>upb_value\<close> is a C union of the scalar representations and of the pointers
  \<open>str\<close>, \<open>msg\<close>, \<open>arr\<close>, \<open>refcount\<close> and \<open>_void\<close>. It is modelled by its bits:
  the member \<open>v.refcount\<close> of a value \<open>v\<close> is \<open>v\<close> itself, read as an address.
\<close>

type_synonym upb_value = "64 word"

text \<open>
  Modelled from the spec: the type tags \<open>upb_valuetype_t\<close> and the table
  \<open>upb_types\<close> of upb.h, which are not under src. A value is a scalar of a fixed width
  or a pointer to a string, an array or a message; \<open>type_size\<close> is
  \<open>upb_types[t].size\<close>, the width in bytes, eight for a pointer.
\<close>

datatype upb_valuetype = T_scalar nat | T_string | T_array | T_message

fun type_size :: "upb_valuetype \<Rightarrow> nat" where
  "type_size (T_scalar w) = w"
| "type_size T_string = 8"
| "type_size T_array = 8"
| "type_size T_message = 8"

record upb_msgdef =
  set_flags_bytes :: nat   \<comment> \<open>size of the presence bitset, in bytes\<close>
  msg_size :: nat          \<comment> \<open>total size of the data block, in bytes\<close>

text \<open>
  Modelled from the spec: \<open>upb_fielddef\<close> of upb\_def.h. The fields \<open>ftype\<close>
  (\<open>f->type\<close>), \<open>byte_offset\<close>, \<open>field_index\<close> and \<open>default_value\<close> are the
  members the header reads; \<open>upb_field_ismm\<close>, \<open>upb_elem_ismm\<close> and
  \<open>upb_elem_valuetype\<close> are the accessors it calls, taken as metadata of the field
  (its managed flags and its element type); \<open>subdef\<close> is the nested schema.
\<close>

record upb_fielddef =
  ftype :: upb_valuetype
  byte_offset :: nat
  field_index :: nat
  default_value :: upb_value
  upb_field_ismm :: bool
  upb_elem_ismm :: bool
  upb_elem_valuetype :: upb_valuetype
  subdef :: upb_msgdef

subsection \<open>The heap\<close>

text \<open>
  \<open>struct _upb_array\<close>: \<open>len\<close>, \<open>size\<close> (the capacity; named \<open>size_a\<close> here) and
  the element storage, a block of bytes. The \<open>refcount\<close> member, which every managed
  struct has first, is kept beside the body in \<open>obj\<close>. \<open>struct _upb_msg\<close> is its
  reference count and the block \<open>data\<close>.
\<close>

record upb_array =
  len :: "32 word"
  size_a :: "32 word"
  elements :: "byte list"

datatype body = Array upb_array | Msg "byte list" | String "byte list"

record obj =
  refcount :: int
  body :: body

record heap =
  objs :: "addr \<rightharpoonup> obj"
  freed :: "addr list"   \<comment> \<open>a log for the destructors of their runs\<close>
  brk :: addr            \<comment> \<open>the next address the allocator hands out\<close>

definition deref :: "addr \<Rightarrow> heap \<Rightarrow> fault + obj" where
  "deref p h =
     (if p = 0 then Inl Null_deref
      else case objs h p of None \<Rightarrow> Inl Dangling | Some ob \<Rightarrow> Inr ob)"

definition get_array :: "addr \<Rightarrow> heap \<Rightarrow> fault + upb_array" where
  "get_array a h =
     bindE (deref a h) (\<lambda>ob. case body ob of Array arr \<Rightarrow> Inr arr | _ \<Rightarrow> Inl Dangling)"

definition put_array :: "addr \<Rightarrow> upb_array \<Rightarrow> heap \<Rightarrow> fault + heap" where
  "put_array a arr h =
     bindE (deref a h) (\<lambda>ob. case body ob of
        Array _ \<Rightarrow> Inr (h\<lparr>objs := (objs h)(a \<mapsto> ob\<lparr>body := Array arr\<rparr>)\<rparr>)
      | _ \<Rightarrow> Inl Dangling)"

definition get_msg :: "addr \<Rightarrow> heap \<Rightarrow> fault + byte list" where
  "get_msg m h =
     bindE (deref m h) (\<lambda>ob. case body ob of Msg d \<Rightarrow> Inr d | _ \<Rightarrow> Inl Dangling)"

definition put_msg :: "addr \<Rightarrow> byte list \<Rightarrow> heap \<Rightarrow> fault + heap" where
  "put_msg m d h =
     bindE (deref m h) (\<lambda>ob. case body ob of
        Msg _ \<Rightarrow> Inr (h\<lparr>objs := (objs h)(m \<mapsto> ob\<lparr>body := Msg d\<rparr>)\<rparr>)
      | _ \<Rightarrow> Inl Dangling)"

text \<open>The reference count of the live object at an address.\<close>

definition rc :: "heap \<Rightarrow> addr \<Rightarrow> int option" where
  "rc h p = map_option refcount (objs h p)"

text \<open>The body of the live object at an address.\<close>

definition bodies :: "heap \<Rightarrow> addr \<Rightarrow> body option" where
  "bodies h p = map_option body (objs h p)"

text \<open>The heap with \<open>k\<close> added to the reference count of the live object at \<open>p\<close>.\<close>

definition add_rc :: "int \<Rightarrow> addr \<Rightarrow> heap \<Rightarrow> heap" where
  "add_rc k p h =
     (case objs h p of
        None \<Rightarrow> h
      | Some ob \<Rightarrow> h\<lparr>objs := (objs h)(p \<mapsto> ob\<lparr>refcount := refcount ob + k\<rparr>)\<rparr>)"

subsection \<open>Value and reference primitives (upb.h, upb\_atomic.h)\<close>

text \<open>
  A \<open>upb_valueptr\<close> points into the value storage of an object: the element storage of
  an array or the data block of a message. It is the object's address and a byte offset.
\<close>

datatype upb_valueptr = Valueptr addr nat

fun storage :: "body \<Rightarrow> byte list option" where
  "storage (Array arr) = Some (elements arr)"
| "storage (Msg d) = Some d"
| "storage (String s) = None"

fun set_storage :: "byte list \<Rightarrow> body \<Rightarrow> body" where
  "set_storage bs (Array arr) = Array (arr\<lparr>elements := bs\<rparr>)"
| "set_storage bs (Msg d) = Msg bs"
| "set_storage bs (String s) = String s"

fun le_bytes :: "nat \<Rightarrow> nat \<Rightarrow> byte list" where
  "le_bytes 0 v = []"
| "le_bytes (Suc n) v = of_nat (v mod 256) # le_bytes n (v div 256)"

fun le_nat :: "byte list \<Rightarrow> nat" where
  "le_nat [] = 0"
| "le_nat (b # bs) = unat b + 256 * le_nat bs"

text \<open>
  Modelled from the spec: \<open>upb_value_read\<close> and \<open>upb_value_write\<close> of upb.h, which
  are not under src: untyped memory access interpreted through the type tag. The value
  occupies the fixed width of its type at the pointer, least significant byte first; the
  storage must be at least that large.
\<close>

definition upb_value_read :: "upb_valueptr \<Rightarrow> upb_valuetype \<Rightarrow> heap \<Rightarrow> fault + upb_value" where
  "upb_value_read p t h =
     (case p of Valueptr a off \<Rightarrow>
        bindE (deref a h) (\<lambda>ob. case storage (body ob) of
           None \<Rightarrow> Inl Dangling
         | Some bs \<Rightarrow>
             if off + type_size t \<le> length bs
             then Inr (of_nat (le_nat (take (type_size t) (drop off bs))))
             else Inl Out_of_bounds))"

definition upb_value_write ::
  "upb_valueptr \<Rightarrow> upb_value \<Rightarrow> upb_valuetype \<Rightarrow> heap \<Rightarrow> fault + heap" where
  "upb_value_write p v t h =
     (case p of Valueptr a off \<Rightarrow>
        bindE (deref a h) (\<lambda>ob. case storage (body ob) of
           None \<Rightarrow> Inl Dangling
         | Some bs \<Rightarrow>
             if off + type_size t \<le> length bs
             then Inr (h\<lparr>objs := (objs h)(a \<mapsto> ob\<lparr>body :=
                    set_storage (take off bs @ le_bytes (type_size t) (unat v)
                                 @ drop (off + type_size t) bs) (body ob)\<rparr>)\<rparr>)
             else Inl Out_of_bounds))"

text \<open>
  Modelled from the spec: \<open>upb_atomic_ref\<close> and \<open>upb_atomic_unref\<close> of
  upb\_atomic.h, which are not under src. They take the address of a reference count;
  \<open>ref\<close> increments it, \<open>unref\<close> decrements it and tells whether it reached zero.
  The model is sequential, and the count is an unbounded integer.
\<close>

definition upb_atomic_ref :: "addr \<Rightarrow> heap \<Rightarrow> fault + heap" where
  "upb_atomic_ref p h =
     bindE (deref p h) (\<lambda>ob.
       Inr (h\<lparr>objs := (objs h)(p \<mapsto> ob\<lparr>refcount := refcount ob + 1\<rparr>)\<rparr>))"

definition upb_atomic_unref :: "addr \<Rightarrow> heap \<Rightarrow> fault + (bool \<times> heap)" where
  "upb_atomic_unref p h =
     bindE (deref p h) (\<lambda>ob.
       Inr (refcount ob - 1 = 0,
            h\<lparr>objs := (objs h)(p \<mapsto> ob\<lparr>refcount := refcount ob - 1\<rparr>)\<rparr>))"

text \<open>
  The destructors \<open>_upb_field_free\<close>, \<open>_upb_elem_free\<close>, \<open>_upb_array_free\<close> and
  \<open>_upb_msg_free\<close> are declared in the header and defined outside src. They are
  parameters of the model: a record of four functions on the heap, each of which may
  fault. What a destructor does to the heap (releasing the references the object holds,
  freeing its storage) is left open: every function that can reach a destructor takes the
  record as its first argument, and every theorem holds for every such record.
\<close>

record destructors =
  upb_field_free :: "upb_value \<Rightarrow> upb_fielddef \<Rightarrow> heap \<Rightarrow> fault + heap"
  upb_elem_free :: "upb_value \<Rightarrow> upb_fielddef \<Rightarrow> heap \<Rightarrow> fault + heap"
  upb_array_free :: "addr \<Rightarrow> upb_fielddef \<Rightarrow> heap \<Rightarrow> fault + heap"
  upb_msg_free :: "addr \<Rightarrow> upb_msgdef \<Rightarrow> heap \<Rightarrow> fault + heap"

subsection \<open>Reference counting of values (lines 23 to 36)\<close>

definition upb_value_ref :: "upb_value \<Rightarrow> heap \<Rightarrow> fault + heap" where
  "upb_value_ref v h = upb_atomic_ref v h"

definition upb_field_unref ::
  "destructors \<Rightarrow> upb_value \<Rightarrow> upb_fielddef \<Rightarrow> heap \<Rightarrow> fault + heap" where
  "upb_field_unref D v f h =
     (if \<not> upb_field_ismm f then Inl Assert_failed
      else if v \<noteq> 0
      then bindE (upb_atomic_unref v h) (\<lambda>(z, h').
             if z then upb_field_free D v f h' else Inr h')
      else Inr h)"

definition upb_elem_unref ::
  "destructors \<Rightarrow> upb_value \<Rightarrow> upb_fielddef \<Rightarrow> heap \<Rightarrow> fault + heap" where
  "upb_elem_unref D v f h =
     (if \<not> upb_elem_ismm f then Inl Assert_failed
      else if v \<noteq> 0
      then bindE (upb_atomic_unref v h) (\<lambda>(z, h').
             if z then upb_elem_free D v f h' else Inr h')
      else Inr h)"

subsection \<open>upb\_array (lines 40 to 104)\<close>

text \<open>
  \<open>elem * upb_types[f->type].size\<close> is computed in \<open>uint32_t\<close>, as \<open>elem\<close> is.
\<close>

definition upb_array_getptr :: "addr \<Rightarrow> upb_fielddef \<Rightarrow> 32 word \<Rightarrow> upb_valueptr" where
  "upb_array_getptr a f elem = Valueptr a (unat (elem * of_nat (type_size (ftype f))))"

definition upb_array_unref ::
  "destructors \<Rightarrow> addr \<Rightarrow> upb_fielddef \<Rightarrow> heap \<Rightarrow> fault + heap" where
  "upb_array_unref D a f h =
     bindE (upb_atomic_unref a h) (\<lambda>(z, h').
       if z then upb_array_free D a f h' else Inr h')"

definition upb_array_len :: "addr \<Rightarrow> heap \<Rightarrow> fault + 32 word" where
  "upb_array_len a h = bindE (get_array a h) (\<lambda>arr. Inr (len arr))"

definition upb_array_get :: "addr \<Rightarrow> upb_fielddef \<Rightarrow> 32 word \<Rightarrow> heap \<Rightarrow> fault + upb_value" where
  "upb_array_get a f elem h =
     bindE (upb_array_len a h) (\<lambda>n.
       if \<not> elem < n then Inl Assert_failed
       else upb_value_read (upb_array_getptr a f elem) (ftype f) h)"

definition upb_array_set ::
  "destructors \<Rightarrow> addr \<Rightarrow> upb_fielddef \<Rightarrow> 32 word \<Rightarrow> upb_value \<Rightarrow> heap
   \<Rightarrow> fault + heap" where
  "upb_array_set D a f elem val h =
     bindE (upb_array_len a h) (\<lambda>n.
       if \<not> elem < n then Inl Assert_failed
       else let p = upb_array_getptr a f elem in
         bindE (if upb_elem_ismm f
                then bindE (upb_value_read p (ftype f) h) (\<lambda>old.
                       bindE (upb_elem_unref D old f h) (upb_value_ref val))
                else Inr h)
           (upb_value_write p val (ftype f)))"

text \<open>
  \<open>realloc\<close> keeps the bytes up to the smaller of the two sizes; the bytes it adds are
  indeterminate in C and zero here. It is taken to succeed, as the source does. The new
  size \<open>a->len * upb_types[f->type].size\<close> is computed in \<open>uint32_t\<close>.
\<close>

definition realloc :: "byte list \<Rightarrow> nat \<Rightarrow> byte list" where
  "realloc bs n = take n bs @ replicate (n - length bs) 0"

definition upb_array_resize :: "addr \<Rightarrow> upb_fielddef \<Rightarrow> heap \<Rightarrow> fault + heap" where
  "upb_array_resize a f h =
     bindE (get_array a h) (\<lambda>arr.
       if len arr = size_a arr
       then let arr1 = arr\<lparr>len := len arr * 2\<rparr> in
            put_array a
              (arr1\<lparr>elements := realloc (elements arr1)
                        (unat (len arr1 * of_nat (type_size (ftype f))))\<rparr>) h
       else Inr h)"

subsection \<open>upb\_msg (lines 109 to 167)\<close>

definition upb_msg_getptr :: "addr \<Rightarrow> upb_fielddef \<Rightarrow> upb_valueptr" where
  "upb_msg_getptr msg f = Valueptr msg (byte_offset f)"

definition upb_msg_unref ::
  "destructors \<Rightarrow> addr \<Rightarrow> upb_msgdef \<Rightarrow> heap \<Rightarrow> fault + heap" where
  "upb_msg_unref D msg md h =
     (if msg \<noteq> 0
      then bindE (upb_atomic_unref msg h) (\<lambda>(z, h').
             if z then upb_msg_free D msg md h' else Inr h')
      else Inr h)"

definition upb_msg_has :: "addr \<Rightarrow> upb_fielddef \<Rightarrow> heap \<Rightarrow> fault + bool" where
  "upb_msg_has msg f h =
     bindE (get_msg msg h) (\<lambda>d.
       if field_index f div 8 < length d
       then Inr ((d ! (field_index f div 8)) AND push_bit (field_index f mod 8) 1 \<noteq> 0)
       else Inl Out_of_bounds)"

definition upb_msg_clear :: "addr \<Rightarrow> upb_msgdef \<Rightarrow> heap \<Rightarrow> fault + heap" where
  "upb_msg_clear msg md h =
     bindE (get_msg msg h) (\<lambda>d.
       if set_flags_bytes md \<le> length d
       then put_msg msg (replicate (set_flags_bytes md) 0 @ drop (set_flags_bytes md) d) h
       else Inl Out_of_bounds)"

definition upb_msg_get :: "addr \<Rightarrow> upb_fielddef \<Rightarrow> heap \<Rightarrow> fault + upb_value" where
  "upb_msg_get msg f h =
     bindE (upb_msg_has msg f h) (\<lambda>present.
       if present then upb_value_read (upb_msg_getptr msg f) (ftype f) h
       else Inr (default_value f))"

subsection \<open>The recycling allocator (line 20, declared only)\<close>

fun has_type :: "upb_valuetype \<Rightarrow> body \<Rightarrow> bool" where
  "has_type T_string (String s) = True"
| "has_type T_array (Array arr) = True"
| "has_type T_message (Msg d) = True"
| "has_type t b = False"

text \<open>
  Modelled from the spec: the default instance of a managed type, which the constructors
  \<open>upb_array_new\<close> and \<open>upb_msg_new\<close> (declared in the header, defined outside src)
  and the string constructor build. A new array is empty; the spec fixes of its first
  capacity only that it is positive. A new message has a data block sized by its schema,
  with all presence bits zero. An unmanaged type has no instance.
\<close>

definition array_floor :: "32 word" where
  "array_floor = 4"

fun default_body :: "upb_valuetype \<Rightarrow> upb_fielddef \<Rightarrow> body option" where
  "default_body (T_scalar w) f = None"
| "default_body T_string f = Some (String [])"
| "default_body T_array f =
     Some (Array \<lparr>len = 0, size_a = array_floor,
                  elements = replicate (unat array_floor * 8) 0\<rparr>)"
| "default_body T_message f = Some (Msg (replicate (msg_size (subdef f)) 0))"

text \<open>
  Modelled from the spec: allocation of a new instance, with reference count 1, at the
  next address of the allocator. Allocation failure is a fault.
\<close>

definition upb_field_new ::
  "upb_fielddef \<Rightarrow> upb_valuetype \<Rightarrow> heap \<Rightarrow> fault + (upb_value \<times> heap)" where
  "upb_field_new f t h =
     (case default_body t f of
        None \<Rightarrow> Inl Assert_failed
      | Some b \<Rightarrow>
          if brk h = 0 then Inl Out_of_memory
          else Inr (brk h, h\<lparr>objs := (objs h)(brk h \<mapsto> \<lparr>refcount = 1, body = b\<rparr>),
                              brk := brk h + 1\<rparr>))"

text \<open>
  Modelled from the spec: what reusing an instance does to it, "logically clearing or
  resetting its contents": a message is cleared as \<open>upb_msg_clear\<close> does, an array
  and a string become empty.
\<close>

definition reset_instance :: "upb_value \<Rightarrow> upb_fielddef \<Rightarrow> heap \<Rightarrow> fault + heap" where
  "reset_instance v f h =
     bindE (deref v h) (\<lambda>ob. case body ob of
        Msg d \<Rightarrow> upb_msg_clear v (subdef f) h
      | Array arr \<Rightarrow> put_array v (arr\<lparr>len := 0\<rparr>) h
      | String s \<Rightarrow> Inr (h\<lparr>objs := (objs h)(v \<mapsto> ob\<lparr>body := String []\<rparr>)\<rparr>))"

text \<open>
  Modelled from the spec: \<open>upb_field_tryrecycle\<close>, which the header declares and
  which is defined outside src (section 4.4 of the spec). Given the slot and the value
  that occupies it: a value that is non-null, of the expected managed type and
  exclusively owned (reference count 1) is reset and returned. Otherwise the previous
  reference, if there is one, is released (decremented, and the destructor
  \<open>_upb_field_free\<close> called at zero), a new default instance is allocated, written
  to the slot and returned. A value that is not of the expected type is a contract
  violation.
\<close>

definition upb_field_tryrecycle ::
  "destructors \<Rightarrow> upb_valueptr \<Rightarrow> upb_value \<Rightarrow> upb_fielddef \<Rightarrow> upb_valuetype \<Rightarrow> heap
   \<Rightarrow> fault + (upb_value \<times> heap)" where
  "upb_field_tryrecycle D p v f t h =
     (let fresh = (\<lambda>h1.
            bindE (upb_field_new f t h1) (\<lambda>(v', h2).
              bindE (upb_value_write p v' t h2) (\<lambda>h3. Inr (v', h3))))
      in if v = 0 then fresh h
         else bindE (deref v h) (\<lambda>ob.
           if \<not> has_type t (body ob) then Inl Assert_failed
           else if refcount ob = 1
           then bindE (reset_instance v f h) (\<lambda>h1. Inr (v, h1))
           else bindE (upb_atomic_unref v h) (\<lambda>(z, h1).
                  bindE (if z then upb_field_free D v f h1 else Inr h1) fresh)))"

subsection \<open>Appending to an array (lines 95 to 104)\<close>

definition upb_array_appendmutable ::
  "destructors \<Rightarrow> addr \<Rightarrow> upb_fielddef \<Rightarrow> heap \<Rightarrow> fault + (upb_value \<times> heap)" where
  "upb_array_appendmutable D a f h =
     (if \<not> upb_elem_ismm f then Inl Assert_failed
      else bindE (upb_array_resize a f h) (\<lambda>h1.
        bindE (get_array a h1) (\<lambda>arr.
          let p = upb_array_getptr a f (len arr) in
          bindE (put_array a (arr\<lparr>len := len arr + 1\<rparr>) h1) (\<lambda>h2.
            let type = upb_elem_valuetype f in
            bindE (upb_value_read p type h2) (\<lambda>val.
              upb_field_tryrecycle D p val f type h2)))))"

subsection \<open>Setting a field (line 177, declared only)\<close>

text \<open>
  Modelled from the spec: setting the presence bit of a field, the counterpart of the
  test in \<open>upb_msg_has\<close>.
\<close>

definition upb_msg_sethas :: "addr \<Rightarrow> upb_fielddef \<Rightarrow> heap \<Rightarrow> fault + heap" where
  "upb_msg_sethas msg f h =
     bindE (get_msg msg h) (\<lambda>d.
       if field_index f div 8 < length d
       then put_msg msg
              (d[field_index f div 8 :=
                   (d ! (field_index f div 8)) OR push_bit (field_index f mod 8) 1]) h
       else Inl Out_of_bounds)"

text \<open>
  Modelled from the spec: \<open>upb_msg_set\<close>, which the header declares without a body
  (section 4.3 of the spec). For a managed field it releases the reference that occupies
  the field, if the field is present, and takes a reference on the value; then it writes
  the value and sets the presence bit. Releasing and taking a reference are the source's
  \<open>_upb_field_unref\<close> and \<open>_upb_value_ref\<close>, as in \<open>upb_array_set\<close>.
\<close>

definition upb_msg_set ::
  "destructors \<Rightarrow> addr \<Rightarrow> upb_fielddef \<Rightarrow> upb_value \<Rightarrow> heap \<Rightarrow> fault + heap" where
  "upb_msg_set D msg f val h =
     (let p = upb_msg_getptr msg f in
      bindE (if upb_field_ismm f
             then bindE (upb_msg_has msg f h) (\<lambda>present.
                    bindE (if present
                           then bindE (upb_value_read p (ftype f) h) (\<lambda>old.
                                  upb_field_unref D old f h)
                           else Inr h)
                      (upb_value_ref val))
             else Inr h) (\<lambda>h1.
        bindE (upb_value_write p val (ftype f) h1) (upb_msg_sethas msg f)))"

subsection \<open>Sequences of reference operations\<close>

text \<open>
  A sequence of calls on one value \<open>v\<close>. \<open>AddRef\<close> is \<open>_upb_value_ref(v)\<close>; the
  releases are the four functions of the header that drop a reference:
  \<open>_upb_field_unref(v, f)\<close>, \<open>_upb_elem_unref(v, f)\<close>, \<open>upb_array_unref(v, f)\<close>
  and \<open>upb_msg_unref(v, md)\<close>. The run stops at the first fault.
\<close>

datatype refop = AddRef | Field_unref | Elem_unref | Array_unref | Msg_unref

fun is_release :: "refop \<Rightarrow> bool" where
  "is_release AddRef = False"
| "is_release r = True"

fun apply_op ::
  "destructors \<Rightarrow> refop \<Rightarrow> upb_value \<Rightarrow> upb_fielddef \<Rightarrow> upb_msgdef \<Rightarrow> heap
   \<Rightarrow> fault + heap" where
  "apply_op D AddRef v f md h = upb_value_ref v h"
| "apply_op D Field_unref v f md h = upb_field_unref D v f h"
| "apply_op D Elem_unref v f md h = upb_elem_unref D v f h"
| "apply_op D Array_unref v f md h = upb_array_unref D v f h"
| "apply_op D Msg_unref v f md h = upb_msg_unref D v md h"

fun run_ops ::
  "destructors \<Rightarrow> refop list \<Rightarrow> upb_value \<Rightarrow> upb_fielddef \<Rightarrow> upb_msgdef \<Rightarrow> heap
   \<Rightarrow> fault + heap" where
  "run_ops D [] v f md h = Inr h"
| "run_ops D (x # xs) v f md h = bindE (apply_op D x v f md h) (run_ops D xs v f md)"

text \<open>The destructor that a release calls when the count reaches zero.\<close>

fun destructor_of ::
  "destructors \<Rightarrow> refop \<Rightarrow> upb_value \<Rightarrow> upb_fielddef \<Rightarrow> upb_msgdef \<Rightarrow> heap
   \<Rightarrow> fault + heap" where
  "destructor_of D AddRef v f md h = Inr h"
| "destructor_of D Field_unref v f md h = upb_field_free D v f h"
| "destructor_of D Elem_unref v f md h = upb_elem_free D v f h"
| "destructor_of D Array_unref v f md h = upb_array_free D v f h"
| "destructor_of D Msg_unref v f md h = upb_msg_free D v md h"

text \<open>The numbers of addRef calls and of release calls in a sequence.\<close>

definition n_addref :: "refop list \<Rightarrow> nat" where
  "n_addref ops = length (filter (\<lambda>x. \<not> is_release x) ops)"

definition n_release :: "refop list \<Rightarrow> nat" where
  "n_release ops = length (filter is_release ops)"

subsection \<open>Example schemas and heaps\<close>

text \<open>
  A repeated submessage field, and a heap whose only object is a full array of four
  eight-byte slots at address 1.
\<close>

definition f_sub :: upb_fielddef where
  "f_sub = \<lparr>ftype = T_message, byte_offset = 8, field_index = 1, default_value = 0,
            upb_field_ismm = True, upb_elem_ismm = True, upb_elem_valuetype = T_message,
            subdef = \<lparr>set_flags_bytes = 1, msg_size = 8\<rparr>\<rparr>"

definition h_full :: heap where
  "h_full = \<lparr>objs = [1 \<mapsto> \<lparr>refcount = 1,
                body = Array \<lparr>len = 4, size_a = 4, elements = replicate 32 0\<rparr>\<rparr>],
             freed = [], brk = 2\<rparr>"

text \<open>
  A scalar field of four bytes with default 7, and a heap whose only object is a message
  at address 1: one byte of presence bits (field 0 present) and the value 42 at offset 4.
\<close>

definition f_int :: upb_fielddef where
  "f_int = \<lparr>ftype = T_scalar 4, byte_offset = 4, field_index = 0, default_value = 7,
            upb_field_ismm = False, upb_elem_ismm = False, upb_elem_valuetype = T_scalar 4,
            subdef = \<lparr>set_flags_bytes = 0, msg_size = 0\<rparr>\<rparr>"

definition md_ex :: upb_msgdef where
  "md_ex = \<lparr>set_flags_bytes = 1, msg_size = 16\<rparr>"

definition d_ex :: "byte list" where
  "d_ex = [1, 0, 0, 0, 42, 0, 0, 0, 0, 0, 0, 0, 0, 0, 0, 0]"

definition h_msg :: heap where
  "h_msg = \<lparr>objs = [1 \<mapsto> \<lparr>refcount = 1, body = Msg d_ex\<rparr>], freed = [], brk = 2\<rparr>"

text \<open>A heap whose only object is a string at address 1, with reference count 1.\<close>

definition h_one :: heap where
  "h_one = \<lparr>objs = [1 \<mapsto> \<lparr>refcount = 1, body = String []\<rparr>], freed = [], brk = 2\<rparr>"

text \<open>
  A heap with a message at address 1, two submessages at 2 and 3 (the second one shared)
  and at 4 an array of two eight-byte slots, the first holding the submessage at 2.
\<close>

definition arr_ex :: upb_array where
  "arr_ex = \<lparr>len = 2, size_a = 4, elements = [2, 0, 0, 0, 0, 0, 0, 0] @ replicate 24 0\<rparr>"

definition h_ex :: heap where
  "h_ex = \<lparr>objs = [1 \<mapsto> \<lparr>refcount = 1, body = Msg d_ex\<rparr>,
                    2 \<mapsto> \<lparr>refcount = 1, body = Msg (replicate 8 0)\<rparr>,
                    3 \<mapsto> \<lparr>refcount = 2, body = Msg (replicate 8 0)\<rparr>,
                    4 \<mapsto> \<lparr>refcount = 1, body = Array arr_ex\<rparr>],
            freed = [], brk = 5\<rparr>"

text \<open>
  Example destructors, for objects that hold no reference to another object: the
  destructor frees the block, so the object leaves the heap, and logs its run.
\<close>

definition free_block :: "addr \<Rightarrow> heap \<Rightarrow> fault + heap" where
  "free_block p h = Inr (h\<lparr>objs := (objs h)(p := None), freed := p # freed h\<rparr>)"

definition leaf_destructors :: destructors where
  "leaf_destructors =
     \<lparr>upb_field_free = (\<lambda>v f. free_block v), upb_elem_free = (\<lambda>v f. free_block v),
      upb_array_free = (\<lambda>a f. free_block a), upb_msg_free = (\<lambda>m md. free_block m)\<rparr>"

text \<open>
  A heap with a message at address 1 whose fields 0 and 1 are present, field 1 holding
  the submessage at 2 as its only reference; the submessage at 3 is shared.
\<close>

definition d_own :: "byte list" where
  "d_own = [3, 0, 0, 0, 42, 0, 0, 0, 2, 0, 0, 0, 0, 0, 0, 0]"

definition h_own :: heap where
  "h_own = \<lparr>objs = [1 \<mapsto> \<lparr>refcount = 1, body = Msg d_own\<rparr>,
                     2 \<mapsto> \<lparr>refcount = 1, body = Msg (replicate 8 0)\<rparr>,
                     3 \<mapsto> \<lparr>refcount = 2, body = Msg (replicate 8 0)\<rparr>],
             freed = [], brk = 4\<rparr>"

section \<open>Basic facts\<close>

lemma bindE_Inl [simp]: "bindE (Inl e) k = Inl e"
  by (simp add: bindE_def)

lemma bindE_Inr [simp]: "bindE (Inr x) k = k x"
  by (simp add: bindE_def)

lemma bindE_eq_Inr: "bindE m k = Inr y \<longleftrightarrow> (\<exists>x. m = Inr x \<and> k x = Inr y)"
  by (cases m) simp_all

lemma length_le_bytes [simp]: "length (le_bytes n v) = n"
  by (induction n arbitrary: v) simp_all

lemma le_nat_le_bytes: "le_nat (le_bytes n v) = v mod 256 ^ n"
proof (induction n arbitrary: v)
  case 0
  show ?case by simp
next
  case (Suc n)
  have "unat (of_nat (v mod 256) :: byte) = v mod 256"
    by (simp add: unat_of_nat)
  then have "le_nat (le_bytes (Suc n) v) = v mod 256 + 256 * ((v div 256) mod 256 ^ n)"
    by (simp add: Suc.IH)
  also have "\<dots> = v mod 256 ^ Suc n"
    by (simp add: mod_mult2_eq)
  finally show ?case .
qed

lemma presence_test: "(b AND 2 ^ k \<noteq> 0) = bit b k" for b :: byte
  by (simp add: and_exp_eq_0_iff_not_bit)

lemma get_msg_Inr: "get_msg m h = Inr d \<longleftrightarrow> m \<noteq> 0 \<and> (\<exists>ob. objs h m = Some ob \<and> body ob = Msg d)"
  by (auto simp: get_msg_def deref_def split: option.splits body.splits)

lemma upb_msg_has_bit:
  "get_msg m h = Inr d \<Longrightarrow> field_index f div 8 < length d \<Longrightarrow>
   upb_msg_has m f h = Inr (bit (d ! (field_index f div 8)) (field_index f mod 8))"
  by (simp add: upb_msg_has_def presence_test)

lemma upb_value_read_msg:
  "get_msg m h = Inr d \<Longrightarrow> off + type_size t \<le> length d \<Longrightarrow>
   upb_value_read (Valueptr m off) t h = Inr (of_nat (le_nat (take (type_size t) (drop off d))))"
  by (auto simp: get_msg_Inr upb_value_read_def deref_def)

lemma put_msg_Inr:
  "get_msg m h = Inr d \<Longrightarrow>
   \<exists>ob. objs h m = Some ob \<and> put_msg m d' h = Inr (h\<lparr>objs := (objs h)(m \<mapsto> ob\<lparr>body := Msg d'\<rparr>)\<rparr>)"
  by (auto simp: get_msg_Inr put_msg_def deref_def)

lemma get_msg_ex: "get_msg 1 h_msg = Inr d_ex"
  by (simp add: get_msg_def deref_def h_msg_def)

lemma deref_Inr: "deref p h = Inr ob \<longleftrightarrow> p \<noteq> 0 \<and> objs h p = Some ob"
  by (simp add: deref_def split: option.splits)

lemma get_msg_bodies: "get_msg m h = Inr d \<longleftrightarrow> m \<noteq> 0 \<and> bodies h m = Some (Msg d)"
  by (auto simp: get_msg_Inr bodies_def)

lemma get_array_bodies: "get_array a h = Inr arr \<longleftrightarrow> a \<noteq> 0 \<and> bodies h a = Some (Array arr)"
  by (auto simp: get_array_def deref_def bodies_def split: option.splits body.splits)

lemma storage_set_storage: "storage b = Some bs \<Longrightarrow> storage (set_storage bs' b) = Some bs'"
  by (cases b) simp_all

lemma upb_value_read_bodies:
  assumes "a \<noteq> 0" "bodies h a = Some b" "storage b = Some bs" "off + type_size t \<le> length bs"
  shows "upb_value_read (Valueptr a off) t h
           = Inr (of_nat (le_nat (take (type_size t) (drop off bs))))"
  using assms by (auto simp: upb_value_read_def deref_def bodies_def)

lemma upb_value_write_bodies:
  assumes "a \<noteq> 0" "bodies h a = Some b" "storage b = Some bs" "off + type_size t \<le> length bs"
  shows "\<exists>h'. upb_value_write (Valueptr a off) v t h = Inr h'
           \<and> bodies h' = (bodies h)(a \<mapsto> set_storage
                (take off bs @ le_bytes (type_size t) (unat v) @ drop (off + type_size t) bs) b)
           \<and> rc h' = rc h \<and> freed h' = freed h \<and> brk h' = brk h"
  using assms by (auto simp: upb_value_write_def deref_def bodies_def rc_def fun_eq_iff)

lemma upb_atomic_unref_effect:
  assumes "v \<noteq> 0" "rc h v = Some c"
  shows "\<exists>h'. upb_atomic_unref v h = Inr (c = 1, h') \<and> rc h' = (rc h)(v \<mapsto> c - 1)
           \<and> bodies h' = bodies h \<and> freed h' = freed h \<and> brk h' = brk h"
  using assms
  by (auto simp: upb_atomic_unref_def deref_def rc_def bodies_def fun_eq_iff)

lemma take_drop_stored:
  assumes "off + n \<le> length bs" "length ys = n"
  shows "take n (drop off (take off bs @ ys @ drop (off + n) bs)) = ys"
  using assms by simp

lemma take_drop_update_outside:
  assumes "i < off \<or> off + n \<le> i"
  shows "take n (drop off (xs[i := y])) = take n (drop off xs)"
proof (cases "i < off")
  case True
  then show ?thesis by simp
next
  case False
  with assms have "n \<le> i - off" by simp
  with False show ?thesis by (simp add: drop_update_swap)
qed

lemma bit_set_flag: "k < 8 \<Longrightarrow> bit (b OR 2 ^ k) k" for b :: byte
  by (simp add: bit_or_iff bit_exp_iff)

lemma upb_msg_sethas_effect:
  assumes "get_msg m h = Inr d" "field_index f div 8 < length d"
  shows "\<exists>h'. upb_msg_sethas m f h = Inr h'
          \<and> bodies h' = (bodies h)(m \<mapsto> Msg (d[field_index f div 8 :=
                 (d ! (field_index f div 8)) OR 2 ^ (field_index f mod 8)]))
          \<and> rc h' = rc h \<and> freed h' = freed h \<and> brk h' = brk h"
proof -
  let ?d' = "d[field_index f div 8 := (d ! (field_index f div 8)) OR 2 ^ (field_index f mod 8)]"
  from put_msg_Inr [OF assms(1), of ?d'] obtain ob where
    ob: "objs h m = Some ob"
      "put_msg m ?d' h = Inr (h\<lparr>objs := (objs h)(m \<mapsto> ob\<lparr>body := Msg ?d'\<rparr>)\<rparr>)"
    by blast
  have "upb_msg_sethas m f h = Inr (h\<lparr>objs := (objs h)(m \<mapsto> ob\<lparr>body := Msg ?d'\<rparr>)\<rparr>)"
    using assms ob by (simp add: upb_msg_sethas_def)
  then show ?thesis
    using ob(1) by (auto simp: bodies_def rc_def fun_eq_iff)
qed

lemma read_stored:
  assumes "unat x < 256 ^ n"
  shows "(of_nat (le_nat (le_bytes n (unat x))) :: 64 word) = x"
  using assms by (simp add: le_nat_le_bytes)

lemma write_then_sethas:
  assumes m: "get_msg m h = Inr d"
    and idx: "field_index f div 8 < length d"
    and off: "byte_offset f + type_size (ftype f) \<le> length d"
    and disj: "field_index f div 8 < byte_offset f
               \<or> byte_offset f + type_size (ftype f) \<le> field_index f div 8"
    and fits: "unat x < 256 ^ type_size (ftype f)"
  shows "\<exists>h'. bindE (upb_value_write (upb_msg_getptr m f) x (ftype f) h) (upb_msg_sethas m f)
                 = Inr h'
           \<and> upb_msg_has m f h' = Inr True \<and> upb_msg_get m f h' = Inr x"
proof -
  let ?n = "type_size (ftype f)" and ?o = "byte_offset f" and ?i = "field_index f div 8"
  let ?d2 = "take ?o d @ le_bytes ?n (unat x) @ drop (?o + ?n) d"
  let ?d3 = "?d2[?i := (?d2 ! ?i) OR 2 ^ (field_index f mod 8)]"
  from m have m0: "m \<noteq> 0" and bm: "bodies h m = Some (Msg d)"
    by (simp_all add: get_msg_bodies)
  from upb_value_write_bodies [OF m0 bm _ off, of x] obtain h2 where
    h2: "upb_value_write (Valueptr m ?o) x (ftype f) h = Inr h2"
        "bodies h2 = (bodies h)(m \<mapsto> Msg ?d2)"
    by auto
  have m2: "get_msg m h2 = Inr ?d2" using m0 h2(2) by (simp add: get_msg_bodies)
  have len2: "length ?d2 = length d" using off by simp
  from upb_msg_sethas_effect [OF m2, of f] idx len2 obtain h3 where
    h3: "upb_msg_sethas m f h2 = Inr h3" "bodies h3 = (bodies h2)(m \<mapsto> Msg ?d3)"
    by auto
  have m3: "get_msg m h3 = Inr ?d3" using m0 h3(2) by (simp add: get_msg_bodies)
  have b3: "bodies h3 m = Some (Msg ?d3)" using h3(2) by simp
  have len3: "length ?d3 = length d" using len2 by simp
  have has: "upb_msg_has m f h3 = Inr True"
    using upb_msg_has_bit [OF m3, of f] idx len2 by (simp add: bit_set_flag)
  have "take ?n (drop ?o ?d3) = take ?n (drop ?o ?d2)"
    by (rule take_drop_update_outside [OF disj])
  also have "\<dots> = le_bytes ?n (unat x)"
    by (rule take_drop_stored [OF off]) simp
  finally have bytes: "take ?n (drop ?o ?d3) = le_bytes ?n (unat x)" .
  have "upb_value_read (Valueptr m ?o) (ftype f) h3 = Inr x"
    using upb_value_read_bodies [OF m0 b3, of ?d3 ?o "ftype f"] off len3 bytes
      read_stored [OF fits] by simp
  with has have "upb_msg_get m f h3 = Inr x"
    by (simp add: upb_msg_get_def upb_msg_getptr_def)
  with has h2(1) h3(1) show ?thesis by (simp add: upb_msg_getptr_def)
qed

lemma stored_in_array:
  assumes a: "get_array a h = Inr arr"
    and i: "i < len arr"
    and slot: "unat (i * of_nat (type_size (ftype f))) + type_size (ftype f)
                 \<le> length (elements arr)"
    and fits: "unat v < 256 ^ type_size (ftype f)"
  shows "\<exists>h'. upb_value_write (upb_array_getptr a f i) v (ftype f) h = Inr h'
          \<and> get_array a h' = Inr (arr\<lparr>elements :=
                take (unat (i * of_nat (type_size (ftype f)))) (elements arr)
                @ le_bytes (type_size (ftype f)) (unat v)
                @ drop (unat (i * of_nat (type_size (ftype f))) + type_size (ftype f))
                    (elements arr)\<rparr>)
          \<and> upb_array_len a h' = Inr (len arr) \<and> upb_array_get a f i h' = Inr v
          \<and> rc h' = rc h \<and> freed h' = freed h
          \<and> (\<forall>p. p \<noteq> a \<longrightarrow> bodies h' p = bodies h p)"
proof -
  let ?n = "type_size (ftype f)"
  let ?o = "unat (i * of_nat ?n)"
  let ?e = "take ?o (elements arr) @ le_bytes ?n (unat v) @ drop (?o + ?n) (elements arr)"
  let ?arr' = "arr\<lparr>elements := ?e\<rparr>"
  from a have a0: "a \<noteq> 0" and ba: "bodies h a = Some (Array arr)"
    by (simp_all add: get_array_bodies)
  from upb_value_write_bodies [OF a0 ba _ slot, of v] obtain h' where
    h': "upb_value_write (Valueptr a ?o) v (ftype f) h = Inr h'"
        "bodies h' = (bodies h)(a \<mapsto> Array ?arr')"
        "rc h' = rc h" "freed h' = freed h"
    by auto
  have a': "get_array a h' = Inr ?arr'" using a0 h'(2) by (simp add: get_array_bodies)
  have b': "bodies h' a = Some (Array ?arr')" using h'(2) by simp
  have len': "upb_array_len a h' = Inr (len arr)" using a' by (simp add: upb_array_len_def)
  have "take ?n (drop ?o ?e) = le_bytes ?n (unat v)"
    by (rule take_drop_stored [OF slot]) simp
  moreover have "?o + ?n \<le> length ?e" using slot by simp
  ultimately have "upb_value_read (Valueptr a ?o) (ftype f) h' = Inr v"
    using upb_value_read_bodies [OF a0 b', of ?e ?o "ftype f"] read_stored [OF fits] by simp
  then have get': "upb_array_get a f i h' = Inr v"
    using len' i by (simp add: upb_array_get_def upb_array_getptr_def)
  show ?thesis
    using h' a' len' get' by (simp add: upb_array_getptr_def)
qed

lemma rc_h_ex: "rc h_ex 1 = Some 1" "rc h_ex 2 = Some 1" "rc h_ex 3 = Some 2" "rc h_ex 4 = Some 1"
  by (simp_all add: rc_def h_ex_def)

lemma freed_h_ex: "freed h_ex = []"
  by (simp add: h_ex_def)

lemma get_array_h_ex: "get_array 4 h_ex = Inr arr_ex"
  by (simp add: get_array_def deref_def h_ex_def)

lemma old_ex: "upb_value_read (upb_array_getptr 4 f_sub 0) (ftype f_sub) h_ex = Inr 2"
  by (simp add: upb_value_read_def upb_array_getptr_def deref_def h_ex_def f_sub_def arr_ex_def)

lemma old_ex2: "upb_value_read (upb_array_getptr 4 f_int 1) (ftype f_int) h_ex = Inr 0"
  by (simp add: upb_value_read_def upb_array_getptr_def deref_def h_ex_def f_int_def arr_ex_def)

lemma type_size_managed: "default_body t f = Some b \<Longrightarrow> type_size t = 8"
  by (cases t) simp_all

lemma word64_fits: "unat (v :: 64 word) < 256 ^ 8"
proof -
  have "unat v < 2 ^ 64" using unsigned_less [of v] by simp
  then show ?thesis by simp
qed

lemma fresh_effect:
  assumes b0: "default_body t f = Some b0"
    and brk0: "brk g \<noteq> 0" and unused: "rc g (brk g) = None"
    and a0: "a \<noteq> 0" and ba: "bodies g a = Some b" and st: "storage b = Some bs"
    and off: "off + type_size t \<le> length bs"
  shows "\<exists>h'. bindE (upb_field_new f t g) (\<lambda>(v', h2).
                 bindE (upb_value_write (Valueptr a off) v' t h2) (\<lambda>h3. Inr (v', h3)))
               = Inr (brk g, h')
          \<and> rc h' = (rc g)(brk g \<mapsto> 1) \<and> bodies h' (brk g) = Some b0
          \<and> freed h' = freed g
          \<and> upb_value_read (Valueptr a off) t h' = Inr (brk g)"
proof -
  let ?v = "brk g"
  let ?h2 = "g\<lparr>objs := (objs g)(?v \<mapsto> \<lparr>refcount = 1, body = b0\<rparr>), brk := ?v + 1\<rparr>"
  let ?bs' = "take off bs @ le_bytes (type_size t) (unat ?v) @ drop (off + type_size t) bs"
  have new: "upb_field_new f t g = Inr (?v, ?h2)"
    using b0 brk0 by (simp add: upb_field_new_def)
  have av: "a \<noteq> ?v" using ba unused by (auto simp: rc_def bodies_def)
  have rc2: "rc ?h2 = (rc g)(?v \<mapsto> 1)" by (auto simp: rc_def fun_eq_iff)
  have bd2: "bodies ?h2 = (bodies g)(?v \<mapsto> b0)" by (auto simp: bodies_def fun_eq_iff)
  have ba2: "bodies ?h2 a = Some b" using bd2 ba av by simp
  have fr2: "freed ?h2 = freed g" by simp
  from upb_value_write_bodies [OF a0 ba2 st off, of ?v] obtain h' where
    h': "upb_value_write (Valueptr a off) ?v t ?h2 = Inr h'"
        "bodies h' = (bodies ?h2)(a \<mapsto> set_storage ?bs' b)"
        "rc h' = rc ?h2" "freed h' = freed ?h2"
    by blast
  have ba': "bodies h' a = Some (set_storage ?bs' b)" using h'(2) by simp
  have bv': "bodies h' ?v = Some b0" using h'(2) bd2 av by simp
  have "take (type_size t) (drop off ?bs') = le_bytes (type_size t) (unat ?v)"
    by (rule take_drop_stored [OF off]) simp
  moreover have "off + type_size t \<le> length ?bs'" using off by simp
  moreover have "unat ?v < 256 ^ type_size t"
    using word64_fits [of ?v] type_size_managed [OF b0] by simp
  ultimately have "upb_value_read (Valueptr a off) t h' = Inr ?v"
    using upb_value_read_bodies [OF a0 ba' storage_set_storage [OF st], of off t]
      read_stored [of ?v "type_size t"] by simp
  with new h' rc2 bv' fr2 show ?thesis by simp
qed

lemma reset_instance_effect:
  assumes "v \<noteq> 0" "objs h v = Some ob"
    and "\<forall>d. body ob = Msg d \<longrightarrow> set_flags_bytes (subdef f) \<le> length d"
  shows "\<exists>h'. reset_instance v f h = Inr h' \<and> rc h' = rc h \<and> freed h' = freed h
           \<and> brk h' = brk h"
proof (cases "body ob")
  case (Array arr)
  with assms show ?thesis
    by (auto simp: reset_instance_def deref_def put_array_def rc_def fun_eq_iff)
next
  case (Msg d)
  from Msg assms show ?thesis
    by (auto simp: reset_instance_def deref_def upb_msg_clear_def get_msg_def put_msg_def
        rc_def fun_eq_iff)
next
  case (String s)
  with assms show ?thesis
    by (auto simp: reset_instance_def deref_def rc_def fun_eq_iff)
qed

lemma objs_h_ex:
  "objs h_ex 2 = Some \<lparr>refcount = 1, body = Msg (replicate 8 0)\<rparr>"
  "objs h_ex 3 = Some \<lparr>refcount = 2, body = Msg (replicate 8 0)\<rparr>"
  by (simp_all add: h_ex_def)

lemma bodies_h_ex: "bodies h_ex 4 = Some (Array arr_ex)"
  by (simp add: bodies_def h_ex_def)

lemma brk_h_ex: "brk h_ex = 5" "rc h_ex 5 = None"
  by (simp_all add: rc_def h_ex_def)

lemma fresh_slot_owner:
  assumes b0: "default_body t f = Some b0"
    and brk0: "brk g \<noteq> 0" and unused: "rc g (brk g) = None"
    and a0: "a \<noteq> 0" and ba: "bodies g a = Some b" and st: "storage b = Some bs"
    and off: "off + type_size t \<le> length bs"
  shows "\<exists>h'. bindE (upb_field_new f t g) (\<lambda>(v', h2).
                 bindE (upb_value_write (Valueptr a off) v' t h2) (\<lambda>h3. Inr (v', h3)))
               = Inr (brk g, h')
          \<and> bodies h' a = Some (set_storage
               (take off bs @ le_bytes (type_size t) (unat (brk g)) @ drop (off + type_size t) bs) b)"
proof -
  let ?v = "brk g"
  let ?h2 = "g\<lparr>objs := (objs g)(?v \<mapsto> \<lparr>refcount = 1, body = b0\<rparr>), brk := ?v + 1\<rparr>"
  have new: "upb_field_new f t g = Inr (?v, ?h2)"
    using b0 brk0 by (simp add: upb_field_new_def)
  have av: "a \<noteq> ?v" using ba unused by (auto simp: rc_def bodies_def)
  have ba2: "bodies ?h2 a = Some b" using ba av by (simp add: bodies_def)
  from upb_value_write_bodies [OF a0 ba2 st off, of ?v] new show ?thesis by auto
qed

lemma reset_instance_frame:
  assumes r: "reset_instance v f h = Inr h'" and pv: "p \<noteq> v"
  shows "bodies h' p = bodies h p"
proof -
  from r obtain ob where ob: "deref v h = Inr ob"
    by (auto simp: reset_instance_def bindE_eq_Inr)
  show ?thesis
  proof (cases "body ob")
    case (Array arr)
    with r ob pv show ?thesis
      by (auto simp: reset_instance_def put_array_def bodies_def)
  next
    case (Msg d)
    with r ob pv show ?thesis
      by (auto simp: reset_instance_def upb_msg_clear_def get_msg_def put_msg_def bodies_def
          split: if_splits)
  next
    case (String s)
    with r ob pv show ?thesis
      by (auto simp: reset_instance_def bodies_def)
  qed
qed

lemma word_less_Suc: "x < y \<Longrightarrow> x < x + 1" for x y :: "32 word"
  by unat_arith

lemma put_array_effect:
  assumes "get_array a h = Inr arr"
  shows "\<exists>h'. put_array a arr' h = Inr h' \<and> bodies h' = (bodies h)(a \<mapsto> Array arr')
           \<and> rc h' = rc h \<and> freed h' = freed h \<and> brk h' = brk h"
  using assms
  by (auto simp: get_array_def put_array_def deref_def bodies_def rc_def fun_eq_iff
      split: option.splits body.splits if_splits)

lemma appended_slot:
  assumes "a \<noteq> 0" "bodies h' a = Some (Array arr')" "len arr' = n + 1" "n < n + 1"
    and "upb_value_read (upb_array_getptr a f n) (ftype f) h' = Inr v"
  shows "upb_array_len a h' = Inr (n + 1) \<and> upb_array_get a f n h' = Inr v"
proof -
  have "get_array a h' = Inr arr'" using assms(1,2) by (simp add: get_array_bodies)
  then have "upb_array_len a h' = Inr (n + 1)" using assms(3) by (simp add: upb_array_len_def)
  then show ?thesis using assms(4,5) by (simp add: upb_array_get_def)
qed

text \<open>
  Where the array has room (\<open>len < size\<close>), \<open>upb_array_resize\<close> does nothing:
  \<open>upb_array_appendmutable\<close> then grows the length by one, and \<open>upb_array_get\<close>
  at the new last index returns the value handed back. \<open>v\<close> is the value found in
  the slot: null, or an object of the element type.
\<close>

lemma upb_array_appendmutable_room:
  assumes mm: "upb_elem_ismm f"
    and a: "get_array a h = Inr arr"
    and room: "len arr < size_a arr"
    and ty: "upb_elem_valuetype f = ftype f"
    and slot: "unat (len arr * of_nat (type_size (ftype f))) + type_size (ftype f)
                 \<le> length (elements arr)"
    and cur: "upb_value_read (upb_array_getptr a f (len arr)) (ftype f) h = Inr v"
    and ok: "v = 0 \<or> (v \<noteq> a \<and> (\<exists>ob. objs h v = Some ob \<and> has_type (ftype f) (body ob)
                \<and> (\<forall>d. body ob = Msg d \<longrightarrow> set_flags_bytes (subdef f) \<le> length d)))"
    and b0: "default_body (ftype f) f = Some b0"
    and brk0: "brk h \<noteq> 0" and unused: "rc h (brk h) = None"
  shows "\<exists>v' h'. upb_array_appendmutable D a f h = Inr (v', h')
           \<and> upb_array_len a h' = Inr (len arr + 1)
           \<and> upb_array_get a f (len arr) h' = Inr v'"
proof -
  let ?t = "ftype f" and ?n = "len arr"
  let ?o = "unat (?n * of_nat (type_size ?t))"
  let ?p = "Valueptr a ?o"
  let ?arr' = "arr\<lparr>len := ?n + 1\<rparr>"
  have less: "?n < ?n + 1" using room by (rule word_less_Suc)
  from a have a0: "a \<noteq> 0" and ba: "bodies h a = Some (Array arr)"
    by (simp_all add: get_array_bodies)
  have "len arr \<noteq> size_a arr" using room by auto
  then have resize: "upb_array_resize a f h = Inr h"
    using a by (simp add: upb_array_resize_def)
  from put_array_effect [OF a, of ?arr'] obtain h2 where
    h2: "put_array a ?arr' h = Inr h2" "bodies h2 = (bodies h)(a \<mapsto> Array ?arr')"
        "rc h2 = rc h" "freed h2 = freed h" "brk h2 = brk h"
    by blast
  have ba2: "bodies h2 a = Some (Array ?arr')" using h2(2) by simp
  have st2: "storage (Array ?arr') = Some (elements arr)" by simp
  have v: "v = of_nat (le_nat (take (type_size ?t) (drop ?o (elements arr))))"
    using cur upb_value_read_bodies [OF a0 ba _ slot] by (simp add: upb_array_getptr_def)
  have read2: "upb_value_read ?p ?t h2 = Inr v"
    using upb_value_read_bodies [OF a0 ba2 st2 slot] v by simp
  have start: "upb_array_appendmutable D a f h = upb_field_tryrecycle D ?p v f ?t h2"
    using mm resize a h2(1) read2 ty
    by (simp add: upb_array_appendmutable_def upb_array_getptr_def Let_def)
  have fresh: "\<exists>h'. bindE (upb_field_new f ?t g) (\<lambda>(v', h3).
                 bindE (upb_value_write ?p v' ?t h3) (\<lambda>h4. Inr (v', h4))) = Inr (brk g, h')
             \<and> upb_array_len a h' = Inr (?n + 1) \<and> upb_array_get a f ?n h' = Inr (brk g)"
    if g: "bodies g a = Some (Array ?arr')" "brk g \<noteq> 0" "rc g (brk g) = None" for g
  proof -
    from fresh_effect [OF b0 g(2,3) a0 g(1) st2 slot] obtain h' where
      h': "bindE (upb_field_new f ?t g) (\<lambda>(v', h3).
                 bindE (upb_value_write ?p v' ?t h3) (\<lambda>h4. Inr (v', h4))) = Inr (brk g, h')"
          "upb_value_read ?p ?t h' = Inr (brk g)"
      by blast
    from fresh_slot_owner [OF b0 g(2,3) a0 g(1) st2 slot] h'(1)
    have "\<exists>e. bodies h' a = Some (Array (?arr'\<lparr>elements := e\<rparr>))" by auto
    then obtain e where e: "bodies h' a = Some (Array (?arr'\<lparr>elements := e\<rparr>))" ..
    from appended_slot [OF a0 e _ less, of f "brk g"] h'(2)
    have "upb_array_len a h' = Inr (?n + 1) \<and> upb_array_get a f ?n h' = Inr (brk g)"
      by (simp add: upb_array_getptr_def)
    with h'(1) show ?thesis by blast
  qed
  show ?thesis
  proof (cases "v = 0")
    case True
    from fresh [OF ba2] brk0 unused h2(3,5) obtain h' where
      "bindE (upb_field_new f ?t h2) (\<lambda>(v', h3).
                 bindE (upb_value_write ?p v' ?t h3) (\<lambda>h4. Inr (v', h4))) = Inr (brk h2, h')"
      "upb_array_len a h' = Inr (?n + 1)" "upb_array_get a f ?n h' = Inr (brk h2)"
      by auto
    with True start show ?thesis by (simp add: upb_field_tryrecycle_def)
  next
    case False
    with ok obtain ob where va: "v \<noteq> a" and ob: "objs h v = Some ob"
      and hty: "has_type ?t (body ob)"
      and sz: "\<forall>d. body ob = Msg d \<longrightarrow> set_flags_bytes (subdef f) \<le> length d"
      by blast
    have "rc h2 v = Some (refcount ob)" using ob h2(3) by (simp add: rc_def)
    moreover have "bodies h2 v = Some (body ob)" using ob h2(2) va by (simp add: bodies_def)
    ultimately have "\<exists>ob2. objs h2 v = Some ob2 \<and> refcount ob2 = refcount ob \<and> body ob2 = body ob"
      by (auto simp: rc_def bodies_def)
    then obtain ob2 where ob2: "objs h2 v = Some ob2" "refcount ob2 = refcount ob"
      "body ob2 = body ob" by blast
    have d2: "deref v h2 = Inr ob2" using False ob2(1) by (simp add: deref_Inr)
    show ?thesis
    proof (cases "refcount ob = 1")
      case True
      from reset_instance_effect [OF False ob2(1), of f] sz ob2(3) obtain h' where
        h': "reset_instance v f h2 = Inr h'" by auto
      have "bodies h' a = Some (Array ?arr')"
        using reset_instance_frame [OF h', of a] va ba2 by simp
      moreover from this have "upb_value_read ?p ?t h' = Inr v"
        using upb_value_read_bodies [OF a0 _ st2 slot, of h'] v by simp
      ultimately have "upb_array_len a h' = Inr (?n + 1) \<and> upb_array_get a f ?n h' = Inr v"
        using appended_slot [OF a0 _ _ less, of h' ?arr' f v] by (simp add: upb_array_getptr_def)
      moreover have "upb_field_tryrecycle D ?p v f ?t h2 = Inr (v, h')"
        using False d2 ob2 hty True h' by (simp add: upb_field_tryrecycle_def)
      ultimately show ?thesis using start by simp
    next
      case shared: False
      have c: "rc h2 v = Some (refcount ob)" using ob2 by (simp add: rc_def)
      from upb_atomic_unref_effect [OF False c] obtain h1 where
        h1: "upb_atomic_unref v h2 = Inr (refcount ob = 1, h1)"
            "rc h1 = (rc h2)(v \<mapsto> refcount ob - 1)" "bodies h1 = bodies h2"
            "brk h1 = brk h2"
        by blast
      have vb: "v \<noteq> brk h" using ob unused by (auto simp: rc_def)
      have g1: "bodies h1 a = Some (Array ?arr')" using ba2 h1(3) by simp
      have g2: "brk h1 \<noteq> 0" using brk0 h1(4) h2(5) by simp
      have g3: "rc h1 (brk h1) = None" using unused vb h1(2,4) h2(3,5) by simp
      from fresh [OF g1 g2 g3] obtain h' where
        "bindE (upb_field_new f ?t h1) (\<lambda>(v', h3).
                 bindE (upb_value_write ?p v' ?t h3) (\<lambda>h4. Inr (v', h4))) = Inr (brk h1, h')"
        "upb_array_len a h' = Inr (?n + 1)" "upb_array_get a f ?n h' = Inr (brk h1)"
        by blast
      moreover from this have "upb_field_tryrecycle D ?p v f ?t h2 = Inr (brk h1, h')"
        using False d2 ob2 hty shared h1(1) by (simp add: upb_field_tryrecycle_def)
      ultimately show ?thesis using start by simp
    qed
  qed
qed

lemma rc_add_rc: "rc h p = Some c \<Longrightarrow> rc (add_rc k p h) = (rc h)(p \<mapsto> c + k)"
  by (auto simp: rc_def add_rc_def fun_eq_iff)

lemma bodies_add_rc [simp]: "bodies (add_rc k p h) = bodies h"
  by (auto simp: bodies_def add_rc_def fun_eq_iff split: option.splits)

lemma freed_add_rc [simp]: "freed (add_rc k p h) = freed h"
  by (simp add: add_rc_def split: option.splits)

lemma brk_add_rc [simp]: "brk (add_rc k p h) = brk h"
  by (simp add: add_rc_def split: option.splits)

lemma add_rc_0 [simp]: "add_rc 0 p h = h"
  by (simp add: add_rc_def map_upd_triv split: option.splits)

lemma add_rc_add_rc [simp]: "add_rc j p (add_rc k p h) = add_rc (k + j) p h"
  by (simp add: add_rc_def add.assoc split: option.splits)

lemma upb_value_ref_add:
  "v \<noteq> 0 \<Longrightarrow> rc h v = Some c \<Longrightarrow> upb_value_ref v h = Inr (add_rc 1 v h)"
  by (auto simp: upb_value_ref_def upb_atomic_ref_def deref_def rc_def add_rc_def)

lemma upb_atomic_unref_add:
  "v \<noteq> 0 \<Longrightarrow> rc h v = Some c \<Longrightarrow> upb_atomic_unref v h = Inr (c = 1, add_rc (- 1) v h)"
  by (auto simp: upb_atomic_unref_def deref_def rc_def add_rc_def)

lemma apply_op_addref:
  "v \<noteq> 0 \<Longrightarrow> rc h v = Some c \<Longrightarrow> apply_op D AddRef v f md h = Inr (add_rc 1 v h)"
  by (simp add: upb_value_ref_add)

lemma apply_op_release:
  assumes "is_release x" and "v \<noteq> 0" and "rc h v = Some c"
    and "x = Field_unref \<longrightarrow> upb_field_ismm f" and "x = Elem_unref \<longrightarrow> upb_elem_ismm f"
  shows "apply_op D x v f md h =
           (if c = 1 then destructor_of D x v f md (add_rc (- 1) v h)
            else Inr (add_rc (- 1) v h))"
  using assms
  by (cases x)
    (simp_all add: upb_field_unref_def upb_elem_unref_def upb_array_unref_def
      upb_msg_unref_def upb_atomic_unref_add)

lemma run_ops_append:
  "run_ops D (xs @ ys) v f md h = bindE (run_ops D xs v f md h) (run_ops D ys v f md)"
proof (induction xs arbitrary: h)
  case Nil
  show ?case by simp
next
  case (Cons x xs)
  then show ?case by (cases "apply_op D x v f md h") simp_all
qed

lemma run_ops_single: "run_ops D [x] v f md h = apply_op D x v f md h"
  by (cases "apply_op D x v f md h") simp_all

lemma n_addref_snoc: "n_addref (xs @ [x]) = n_addref xs + (if is_release x then 0 else 1)"
  by (simp add: n_addref_def)

lemma n_release_snoc: "n_release (xs @ [x]) = n_release xs + (if is_release x then 1 else 0)"
  by (simp add: n_release_def)

text \<open>While references are held after every call, a run only moves the count.\<close>

lemma run_ops_held:
  assumes "v \<noteq> 0" and "rc h v = Some c"
    and "Field_unref \<in> set ops \<longrightarrow> upb_field_ismm f"
    and "Elem_unref \<in> set ops \<longrightarrow> upb_elem_ismm f"
    and "\<forall>k \<le> length ops. int (n_release (take k ops)) < int (n_addref (take k ops)) + c"
  shows "run_ops D ops v f md h
           = Inr (add_rc (int (n_addref ops) - int (n_release ops)) v h)"
  using assms(3,4,5)
proof (induction ops rule: rev_induct)
  case Nil
  show ?case by (simp add: n_addref_def n_release_def)
next
  case (snoc x xs)
  let ?b = "int (n_addref xs) - int (n_release xs)"
  have pre: "\<forall>k \<le> length xs. int (n_release (take k xs)) < int (n_addref (take k xs)) + c"
  proof (intro allI impI)
    fix k assume "k \<le> length xs"
    with snoc.prems(3) [rule_format, of k] show
      "int (n_release (take k xs)) < int (n_addref (take k xs)) + c" by simp
  qed
  have run: "run_ops D xs v f md h = Inr (add_rc ?b v h)"
    using snoc.IH snoc.prems(1,2) pre by simp
  have cnt: "rc (add_rc ?b v h) v = Some (c + ?b)"
    using assms(2) by (simp add: rc_add_rc)
  from snoc.prems(3) [rule_format, of "length (xs @ [x])"]
  have full: "int (n_release (xs @ [x])) < int (n_addref (xs @ [x])) + c" by simp
  show ?case
  proof (cases "is_release x")
    case False
    then have "x = AddRef" by (cases x) simp_all
    then have "apply_op D x v f md (add_rc ?b v h) = Inr (add_rc 1 v (add_rc ?b v h))"
      using apply_op_addref [OF assms(1) cnt] by simp
    moreover have "int (n_addref (xs @ [x])) - int (n_release (xs @ [x])) = ?b + 1"
      using False by (simp add: n_addref_snoc n_release_snoc)
    ultimately show ?thesis
      using run by (simp add: run_ops_append run_ops_single del: run_ops.simps)
  next
    case True
    then have ne: "c + ?b \<noteq> 1" using full by (simp add: n_addref_snoc n_release_snoc)
    have "apply_op D x v f md (add_rc ?b v h) = Inr (add_rc (- 1) v (add_rc ?b v h))"
      using apply_op_release [OF True assms(1) cnt, of f D md] snoc.prems(1,2) ne by simp
    moreover have "int (n_addref (xs @ [x])) - int (n_release (xs @ [x])) = ?b + - 1"
      using True by (simp add: n_addref_snoc n_release_snoc)
    ultimately show ?thesis
      using run by (simp add: run_ops_append run_ops_single del: run_ops.simps)
  qed
qed

lemma upb_elem_unref_cases:
  assumes "upb_elem_ismm f" and "old \<noteq> 0 \<longrightarrow> rc h old = Some co"
  shows "upb_elem_unref D old f h =
           (if old = 0 then Inr h
            else if co = 1 then upb_elem_free D old f (add_rc (- 1) old h)
            else Inr (add_rc (- 1) old h))"
  using assms by (simp add: upb_elem_unref_def upb_atomic_unref_add)

lemma upb_field_unref_cases:
  assumes "upb_field_ismm f" and "old \<noteq> 0 \<longrightarrow> rc h old = Some co"
  shows "upb_field_unref D old f h =
           (if old = 0 then Inr h
            else if co = 1 then upb_field_free D old f (add_rc (- 1) old h)
            else Inr (add_rc (- 1) old h))"
  using assms by (simp add: upb_field_unref_def upb_atomic_unref_add)

lemma le_nat_zeros [simp]: "le_nat (replicate n 0) = 0"
  by (induction n) simp_all

lemma rc_h_one: "rc h_one 1 = Some 1"
  by (simp add: rc_def h_one_def)

lemma get_msg_h_own: "get_msg 1 h_own = Inr d_own"
  by (simp add: get_msg_def deref_def h_own_def)

lemma rc_h_own: "rc h_own 2 = Some 1" "rc h_own 3 = Some 2"
  by (simp_all add: rc_def h_own_def)

section \<open>The array\<close>

text \<open>
  Claim C1. For an array whose length equals its capacity, resize doubles the capacity,
  leaves the length alone and keeps length \<open>\<le>\<close> capacity. The code doubles \<open>len\<close>
  instead of \<open>size\<close>: on the full array of \<open>h_full\<close> (length 4, capacity 4) it
  leaves length 8 and capacity 4, with storage for eight elements.
\<close>

theorem upb_array_resize_doubles_len:
  "bindE (upb_array_resize 1 f_sub h_full) (get_array 1)
     = Inr \<lparr>len = 8, size_a = 4, elements = replicate 64 0\<rparr>"
  by (simp add: upb_array_resize_def get_array_def put_array_def deref_def h_full_def
      f_sub_def realloc_def Let_def replicate_add [symmetric])

text \<open>
  Claim C2. appendMutable increases the length by exactly 1 and the element at the new
  last index is the value handed back. On the full array of \<open>h_full\<close> the resize
  doubles the length to 8, the slot reserved is number 8, one past the storage of eight
  slots, and reading it is out of bounds.
\<close>

theorem upb_array_appendmutable_full:
  "bindE (upb_array_resize 1 f_sub h_full) (upb_array_len 1) = Inr 8
   \<and> upb_array_getptr 1 f_sub 8 = Valueptr 1 64
   \<and> upb_array_appendmutable D 1 f_sub h_full = Inl Out_of_bounds"
  by (simp add: upb_array_appendmutable_def upb_array_resize_def upb_array_len_def
      get_array_def put_array_def deref_def h_full_def f_sub_def realloc_def Let_def
      upb_array_getptr_def upb_value_read_def)

text \<open>
  Claim C8, as the code has it. \<open>old\<close> is the value the slot holds before the call
  and \<open>h1\<close> the heap once the reference on it is released: the heap itself when
  \<open>old\<close> is null, else the heap with the count of \<open>old\<close> one lower and, when that
  count was 1, what the destructor \<open>_upb_elem_free\<close> then returns. For an index
  below the length and a managed element type, when the new value is non-null and is
  live in \<open>h1\<close>, as the array is, array \<open>set\<close> releases the reference stored at
  the index, takes a reference on the new value (its count in \<open>h1\<close> goes up by one)
  and stores the value; with an unmanaged element type it overwrites the slot and no
  count changes. In both cases the length is unchanged: of the array only the bytes of
  the slot change.
\<close>

theorem upb_array_set_effect:
  assumes a: "get_array a h = Inr arr"
    and i: "i < len arr"
    and slot: "unat (i * of_nat (type_size (ftype f))) + type_size (ftype f)
                 \<le> length (elements arr)"
    and fits: "unat v < 256 ^ type_size (ftype f)"
    and old: "upb_value_read (upb_array_getptr a f i) (ftype f) h = Inr old"
    and rel: "upb_elem_ismm f \<longrightarrow>
                (old \<noteq> 0 \<longrightarrow> rc h old = Some co)
                \<and> (if old \<noteq> 0 \<and> co = 1
                    then upb_elem_free D old f (add_rc (- 1) old h) = Inr h1
                    else h1 = (if old = 0 then h else add_rc (- 1) old h))"
    and live: "upb_elem_ismm f \<longrightarrow> v \<noteq> 0 \<and> rc h1 v = Some c \<and> get_array a h1 = Inr arr"
  shows "\<exists>h'. upb_array_set D a f i v h = Inr h'
          \<and> upb_array_len a h' = Inr (len arr) \<and> upb_array_get a f i h' = Inr v
          \<and> get_array a h' = Inr (arr\<lparr>elements :=
                take (unat (i * of_nat (type_size (ftype f)))) (elements arr)
                @ le_bytes (type_size (ftype f)) (unat v)
                @ drop (unat (i * of_nat (type_size (ftype f))) + type_size (ftype f))
                    (elements arr)\<rparr>)
          \<and> (upb_elem_ismm f \<longrightarrow>
               rc h' = (rc h1)(v \<mapsto> c + 1) \<and> freed h' = freed h1
               \<and> (\<forall>p. p \<noteq> a \<longrightarrow> bodies h' p = bodies h1 p)
               \<and> (old = 0 \<longrightarrow> rc h' = (rc h)(v \<mapsto> c + 1))
               \<and> (old \<noteq> 0 \<and> co \<noteq> 1 \<longrightarrow> rc h' = (rc h)(old \<mapsto> co - 1, v \<mapsto> c + 1)))
          \<and> (\<not> upb_elem_ismm f \<longrightarrow>
               rc h' = rc h \<and> freed h' = freed h \<and> (\<forall>p. p \<noteq> a \<longrightarrow> bodies h' p = bodies h p))"
proof (cases "upb_elem_ismm f")
  case False
  from stored_in_array [OF a i slot fits] obtain h' where
    h': "upb_value_write (upb_array_getptr a f i) v (ftype f) h = Inr h'"
        "get_array a h' = Inr (arr\<lparr>elements :=
                take (unat (i * of_nat (type_size (ftype f)))) (elements arr)
                @ le_bytes (type_size (ftype f)) (unat v)
                @ drop (unat (i * of_nat (type_size (ftype f))) + type_size (ftype f))
                    (elements arr)\<rparr>)"
        "upb_array_len a h' = Inr (len arr)" "upb_array_get a f i h' = Inr v"
        "rc h' = rc h" "freed h' = freed h"
        "\<forall>p. p \<noteq> a \<longrightarrow> bodies h' p = bodies h p"
    by blast
  have "upb_array_set D a f i v h = Inr h'"
    using a i False h'(1) by (simp add: upb_array_set_def upb_array_len_def)
  with h' False show ?thesis by simp
next
  case True
  with rel live have oc: "old \<noteq> 0 \<longrightarrow> rc h old = Some co"
    and h1: "if old \<noteq> 0 \<and> co = 1
             then upb_elem_free D old f (add_rc (- 1) old h) = Inr h1
             else h1 = (if old = 0 then h else add_rc (- 1) old h)"
    and v0: "v \<noteq> 0" and vc: "rc h1 v = Some c" and a1: "get_array a h1 = Inr arr"
    by simp_all
  have unref: "upb_elem_unref D old f h = Inr h1"
    using upb_elem_unref_cases [OF True oc, of D] h1 by (simp split: if_splits)
  have ref: "upb_value_ref v h1 = Inr (add_rc 1 v h1)"
    by (rule upb_value_ref_add [OF v0 vc])
  have a2: "get_array a (add_rc 1 v h1) = Inr arr"
    using a1 by (simp add: get_array_bodies)
  from stored_in_array [OF a2 i slot fits] obtain h' where
    h': "upb_value_write (upb_array_getptr a f i) v (ftype f) (add_rc 1 v h1) = Inr h'"
        "get_array a h' = Inr (arr\<lparr>elements :=
                take (unat (i * of_nat (type_size (ftype f)))) (elements arr)
                @ le_bytes (type_size (ftype f)) (unat v)
                @ drop (unat (i * of_nat (type_size (ftype f))) + type_size (ftype f))
                    (elements arr)\<rparr>)"
        "upb_array_len a h' = Inr (len arr)" "upb_array_get a f i h' = Inr v"
        "rc h' = rc (add_rc 1 v h1)" "freed h' = freed (add_rc 1 v h1)"
        "\<forall>p. p \<noteq> a \<longrightarrow> bodies h' p = bodies (add_rc 1 v h1) p"
    by blast
  have set: "upb_array_set D a f i v h = Inr h'"
    using a i True old unref ref h'(1) by (simp add: upb_array_set_def upb_array_len_def)
  have counts: "rc h' = (rc h1)(v \<mapsto> c + 1)" using h'(5) vc by (simp add: rc_add_rc)
  have null: "rc h' = (rc h)(v \<mapsto> c + 1)" if "old = 0"
    using counts h1 that by simp
  have shared: "rc h' = (rc h)(old \<mapsto> co - 1, v \<mapsto> c + 1)" if "old \<noteq> 0" "co \<noteq> 1"
    using counts h1 oc that by (simp add: rc_add_rc)
  from set h' True counts null shared show ?thesis by simp
qed

theorem upb_array_set_effect_witness:
  "get_array 4 h_ex = Inr arr_ex \<and> (0 :: 32 word) < len arr_ex \<and> (1 :: 32 word) < len arr_ex
   \<and> upb_elem_ismm f_sub \<and> rc h_ex 2 = Some 1 \<and> rc h_ex 3 = Some 2
   \<and> upb_array_get 4 f_sub 0 h_ex = Inr 2
   \<and> (\<exists>h'. upb_array_set leaf_destructors 4 f_sub 0 3 h_ex = Inr h'
         \<and> upb_array_len 4 h' = Inr 2 \<and> upb_array_get 4 f_sub 0 h' = Inr 3
         \<and> rc h' 2 = None \<and> rc h' 3 = Some 3 \<and> rc h' 4 = Some 1 \<and> freed h' = [2])
   \<and> \<not> upb_elem_ismm f_int
   \<and> (\<exists>h'. upb_array_set leaf_destructors 4 f_int 1 42 h_ex = Inr h'
         \<and> upb_array_len 4 h' = Inr 2 \<and> upb_array_get 4 f_int 1 h' = Inr 42
         \<and> rc h' = rc h_ex \<and> freed h' = [])"
proof -
  let ?g = "add_rc (- 1) 2 h_ex"
  let ?h1 = "\<lparr>objs = (objs ?g)(2 := None), freed = [2], brk = 5\<rparr>"
  note a = get_array_h_ex
  have i0: "(0 :: 32 word) < len arr_ex" and i1: "(1 :: 32 word) < len arr_ex"
    by (simp_all add: arr_ex_def)
  have s0: "unat ((0 :: 32 word) * of_nat (type_size (ftype f_sub))) + type_size (ftype f_sub)
              \<le> length (elements arr_ex)"
    by (simp add: f_sub_def arr_ex_def)
  have s1: "unat ((1 :: 32 word) * of_nat (type_size (ftype f_int))) + type_size (ftype f_int)
              \<le> length (elements arr_ex)"
    by (simp add: f_int_def arr_ex_def)
  have f0: "unat (3 :: 64 word) < 256 ^ type_size (ftype f_sub)" by (simp add: f_sub_def)
  have f1: "unat (42 :: 64 word) < 256 ^ type_size (ftype f_int)" by (simp add: f_int_def)
  have mm: "upb_elem_ismm f_sub" "\<not> upb_elem_ismm f_int" by (simp_all add: f_sub_def f_int_def)
  have free: "upb_elem_free leaf_destructors 2 f_sub ?g = Inr ?h1"
    by (simp add: leaf_destructors_def free_block_def add_rc_def h_ex_def)
  have rc1: "rc ?h1 2 = None" "rc ?h1 3 = Some 2" "rc ?h1 4 = Some 1"
    by (simp_all add: rc_def add_rc_def h_ex_def)
  have a1: "get_array 4 ?h1 = Inr arr_ex"
    by (simp add: get_array_def deref_def add_rc_def h_ex_def)
  have r0: "upb_elem_ismm f_sub \<longrightarrow>
                ((2 :: 64 word) \<noteq> 0 \<longrightarrow> rc h_ex 2 = Some 1)
                \<and> (if (2 :: 64 word) \<noteq> 0 \<and> (1 :: int) = 1
                    then upb_elem_free leaf_destructors 2 f_sub (add_rc (- 1) 2 h_ex) = Inr ?h1
                    else ?h1 = (if (2 :: 64 word) = 0 then h_ex else add_rc (- 1) 2 h_ex))"
    using free by (simp add: rc_h_ex)
  have l0: "upb_elem_ismm f_sub \<longrightarrow>
              (3 :: 64 word) \<noteq> 0 \<and> rc ?h1 3 = Some 2 \<and> get_array 4 ?h1 = Inr arr_ex"
    using rc1 a1 by simp
  have r1: "upb_elem_ismm f_int \<longrightarrow>
                ((0 :: 64 word) \<noteq> 0 \<longrightarrow> rc h_ex 0 = Some 1)
                \<and> (if (0 :: 64 word) \<noteq> 0 \<and> (1 :: int) = 1
                    then upb_elem_free leaf_destructors 0 f_int (add_rc (- 1) 0 h_ex) = Inr h_ex
                    else h_ex = (if (0 :: 64 word) = 0 then h_ex else add_rc (- 1) 0 h_ex))"
    using mm by simp
  have l1: "upb_elem_ismm f_int \<longrightarrow>
              (42 :: 64 word) \<noteq> 0 \<and> rc h_ex 42 = Some 0 \<and> get_array 4 h_ex = Inr arr_ex"
    using mm by simp
  have g: "upb_array_get 4 f_sub 0 h_ex = Inr 2"
    using old_ex a i0 by (simp add: upb_array_get_def upb_array_len_def)
  from upb_array_set_effect [OF a i0 s0 f0 old_ex r0 l0] mm(1) obtain h' where
    "upb_array_set leaf_destructors 4 f_sub 0 3 h_ex = Inr h'"
    "upb_array_len 4 h' = Inr (len arr_ex)" "upb_array_get 4 f_sub 0 h' = Inr 3"
    "rc h' = (rc ?h1)(3 \<mapsto> 2 + 1)" "freed h' = freed ?h1"
    by blast
  then have A: "\<exists>h'. upb_array_set leaf_destructors 4 f_sub 0 3 h_ex = Inr h'
         \<and> upb_array_len 4 h' = Inr 2 \<and> upb_array_get 4 f_sub 0 h' = Inr 3
         \<and> rc h' 2 = None \<and> rc h' 3 = Some 3 \<and> rc h' 4 = Some 1 \<and> freed h' = [2]"
    using rc1 by (intro exI [of _ h']) (simp add: arr_ex_def)
  from upb_array_set_effect [OF a i1 s1 f1 old_ex2 r1 l1] mm(2) obtain h'' where
    "upb_array_set leaf_destructors 4 f_int 1 42 h_ex = Inr h''"
    "upb_array_len 4 h'' = Inr (len arr_ex)" "upb_array_get 4 f_int 1 h'' = Inr 42"
    "rc h'' = rc h_ex" "freed h'' = freed h_ex"
    by blast
  then have B: "\<exists>h'. upb_array_set leaf_destructors 4 f_int 1 42 h_ex = Inr h'
         \<and> upb_array_len 4 h' = Inr 2 \<and> upb_array_get 4 f_int 1 h' = Inr 42
         \<and> rc h' = rc h_ex \<and> freed h' = []"
    by (intro exI [of _ h'']) (simp add: arr_ex_def freed_h_ex)
  from a i0 i1 mm g A B show ?thesis by (simp add: rc_h_ex)
qed

text \<open>
  Claim C8 as stated fails for a managed element type on a null value, where
  \<open>_upb_value_ref\<close> dereferences the null pointer, and on the value that the slot
  itself holds as its only reference: the release destroys it before the reference is
  taken.
\<close>

theorem upb_array_set_counterexample:
  "upb_array_set leaf_destructors 4 f_sub 1 0 h_ex = Inl Null_deref
   \<and> upb_array_set leaf_destructors 4 f_sub 0 2 h_ex = Inl Dangling"
  by (simp add: upb_array_set_def upb_array_len_def get_array_def deref_def upb_array_getptr_def
      upb_value_read_def upb_elem_unref_def upb_atomic_unref_def upb_value_ref_def
      upb_atomic_ref_def leaf_destructors_def free_block_def h_ex_def arr_ex_def f_sub_def)

section \<open>References\<close>

text \<open>
  Claim C9. addRef increments the count of a value that carries one and is a no-op on a
  value without a reference count. \<open>_upb_value_ref\<close> passes \<open>v.refcount\<close> to
  \<open>upb_atomic_ref\<close> without the null test that \<open>_upb_field_unref\<close> makes: on a
  value whose \<open>refcount\<close> pointer is null it dereferences the null pointer.
\<close>

theorem upb_value_ref_null: "upb_value_ref 0 h = Inl Null_deref"
  by (simp add: upb_value_ref_def upb_atomic_ref_def deref_def)

text \<open>
  Claim C5, as the code has it. A value is created with reference count 1, so a live
  value of count \<open>c \<ge> 1\<close> is destroyed by \<open>n + c\<close> releases for \<open>n\<close> calls of
  addRef, and only in an interleaving that leaves a reference held after every call but
  the last. For every such sequence of calls on \<open>v\<close>, whatever the destructors do:
  the last call is a release, and the whole run is one call of its destructor, on the
  heap in which the count of \<open>v\<close> has reached zero; the run of every proper prefix is
  the heap with the count moved, and calls no destructor. The releases are
  \<open>_upb_field_unref\<close>, \<open>_upb_elem_unref\<close>, \<open>upb_array_unref\<close> and
  \<open>upb_msg_unref\<close>; the first two assert that the field is managed.
\<close>

theorem balanced_release_destroys_once:
  assumes v: "v \<noteq> 0" and c: "rc h v = Some c" and pos: "1 \<le> c"
    and fmm: "Field_unref \<in> set ops \<longrightarrow> upb_field_ismm f"
    and emm: "Elem_unref \<in> set ops \<longrightarrow> upb_elem_ismm f"
    and bal: "int (n_release ops) = int (n_addref ops) + c"
    and held: "\<forall>k < length ops. int (n_release (take k ops)) < int (n_addref (take k ops)) + c"
  shows "ops \<noteq> [] \<and> is_release (last ops)
       \<and> run_ops D ops v f md h = destructor_of D (last ops) v f md (add_rc (- c) v h)
       \<and> (\<forall>k < length ops. run_ops D (take k ops) v f md h
              = Inr (add_rc (int (n_addref (take k ops)) - int (n_release (take k ops))) v h))"
proof -
  have ne: "ops \<noteq> []" using bal pos by (auto simp: n_addref_def n_release_def)
  then obtain xs x where ops: "ops = xs @ [x]" by (metis rev_exhaust)
  have prefix: "run_ops D (take k ops) v f md h
              = Inr (add_rc (int (n_addref (take k ops)) - int (n_release (take k ops))) v h)"
    if k: "k < length ops" for k
  proof (rule run_ops_held [OF v c])
    show "Field_unref \<in> set (take k ops) \<longrightarrow> upb_field_ismm f"
      using fmm by (auto dest: in_set_takeD)
    show "Elem_unref \<in> set (take k ops) \<longrightarrow> upb_elem_ismm f"
      using emm by (auto dest: in_set_takeD)
    show "\<forall>j \<le> length (take k ops).
            int (n_release (take j (take k ops))) < int (n_addref (take j (take k ops))) + c"
    proof (intro allI impI)
      fix j assume "j \<le> length (take k ops)"
      then have "min j k < length ops" and "take j (take k ops) = take (min j k) ops"
        using k by (simp_all add: min_def)
      with held show "int (n_release (take j (take k ops)))
                        < int (n_addref (take j (take k ops))) + c" by simp
    qed
  qed
  let ?b = "int (n_addref xs) - int (n_release xs)"
  have xs: "run_ops D xs v f md h = Inr (add_rc ?b v h)"
    using prefix [of "length xs"] ops by simp
  have hx: "int (n_release xs) < int (n_addref xs) + c"
    using held [rule_format, of "length xs"] ops by simp
  have rel: "is_release x"
    using bal hx ops by (cases "is_release x") (simp_all add: n_addref_snoc n_release_snoc)
  then have one: "c + ?b = 1"
    using bal ops by (simp add: n_addref_snoc n_release_snoc)
  have cnt: "rc (add_rc ?b v h) v = Some (c + ?b)"
    using c by (simp add: rc_add_rc)
  have "apply_op D x v f md (add_rc ?b v h)
          = destructor_of D x v f md (add_rc (- 1) v (add_rc ?b v h))"
    using apply_op_release [OF rel v cnt, of f D md] fmm emm ops one by simp
  moreover have "?b - 1 = - c" using one by simp
  ultimately have "run_ops D ops v f md h = destructor_of D x v f md (add_rc (- c) v h)"
    using xs ops by (simp add: run_ops_append run_ops_single del: run_ops.simps)
  with ne rel ops prefix show ?thesis by simp
qed

theorem balanced_release_destroys_once_witness:
  "(1 :: addr) \<noteq> 0 \<and> rc h_one 1 = Some 1 \<and> upb_field_ismm f_sub \<and> upb_elem_ismm f_sub
   \<and> n_addref [AddRef, Elem_unref, Field_unref] = 1
   \<and> n_release [AddRef, Elem_unref, Field_unref] = 2
   \<and> run_ops leaf_destructors [AddRef, Elem_unref, Field_unref] 1 f_sub md_ex h_one
       = Inr \<lparr>objs = Map.empty, freed = [1], brk = 2\<rparr>
   \<and> run_ops leaf_destructors [AddRef, Elem_unref] 1 f_sub md_ex h_one = Inr h_one
   \<and> run_ops leaf_destructors [AddRef] 1 f_sub md_ex h_one = Inr (add_rc 1 1 h_one)"
proof -
  let ?ops = "[AddRef, Elem_unref, Field_unref]"
  have v: "(1 :: addr) \<noteq> 0" by simp
  have fl: "upb_field_ismm f_sub" "upb_elem_ismm f_sub" by (simp_all add: f_sub_def)
  have n: "n_addref ?ops = 1" "n_release ?ops = 2" by (simp_all add: n_addref_def n_release_def)
  have bal: "int (n_release ?ops) = int (n_addref ?ops) + 1" using n by simp
  have held: "\<forall>k < length ?ops.
                int (n_release (take k ?ops)) < int (n_addref (take k ?ops)) + 1"
    by (auto simp: less_Suc_eq n_addref_def n_release_def)
  have pos: "(1 :: int) \<le> 1" by simp
  have fmm: "Field_unref \<in> set ?ops \<longrightarrow> upb_field_ismm f_sub"
    and emm: "Elem_unref \<in> set ?ops \<longrightarrow> upb_elem_ismm f_sub"
    using fl by simp_all
  note T = balanced_release_destroys_once [OF v rc_h_one pos fmm emm bal held,
      of leaf_destructors md_ex]
  note last = T [THEN conjunct2, THEN conjunct2, THEN conjunct1]
  note pre = T [THEN conjunct2, THEN conjunct2, THEN conjunct2, rule_format]
  have l: "last ?ops = Field_unref" by simp
  have d: "destructor_of leaf_destructors Field_unref 1 f_sub md_ex (add_rc (- 1) 1 h_one)
          = Inr \<lparr>objs = Map.empty, freed = [1], brk = 2\<rparr>"
    by (simp add: leaf_destructors_def free_block_def add_rc_def h_one_def)
  have A: "run_ops leaf_destructors ?ops 1 f_sub md_ex h_one
       = Inr \<lparr>objs = Map.empty, freed = [1], brk = 2\<rparr>"
    using last by (simp only: l d)
  have t2: "take 2 ?ops = [AddRef, Elem_unref]" and t1: "take 1 ?ops = [AddRef]"
    by simp_all
  have b2: "int (n_addref [AddRef, Elem_unref]) - int (n_release [AddRef, Elem_unref]) = 0"
    and b1: "int (n_addref [AddRef]) - int (n_release [AddRef]) = 1"
    by (simp_all add: n_addref_def n_release_def)
  have B: "run_ops leaf_destructors [AddRef, Elem_unref] 1 f_sub md_ex h_one = Inr h_one"
    using pre [of 2] by (simp only: t2 b2 add_rc_0) simp
  have C: "run_ops leaf_destructors [AddRef] 1 f_sub md_ex h_one = Inr (add_rc 1 1 h_one)"
    using pre [of 1] by (simp only: t1 b1) simp
  from v rc_h_one fl n A B C show ?thesis by simp
qed

text \<open>
  Claim C5 as stated fails on a value just created (count 1): after one addRef and one
  release the heap is as at the start and no destructor has run; and with the second
  release that the count calls for, the interleaving release, addRef, release destroys
  the value at its first call and faults at the second.
\<close>

theorem unbalanced_release_counterexample:
  "run_ops leaf_destructors [AddRef, Field_unref] 1 f_sub md_ex h_one = Inr h_one
   \<and> freed h_one = []
   \<and> run_ops leaf_destructors [Field_unref, AddRef, Field_unref] 1 f_sub md_ex h_one
       = Inl Dangling"
  by (simp add: upb_value_ref_def upb_atomic_ref_def upb_field_unref_def upb_atomic_unref_def
      deref_def h_one_def f_sub_def leaf_destructors_def free_block_def)

section \<open>The message\<close>

text \<open>
  Claim C10. Unref of a null message pointer is a no-op: the null test comes before the
  reference count is touched, so the heap is returned as it is, with no decrement and no
  destructor run.
\<close>

theorem upb_msg_unref_null: "upb_msg_unref D 0 md h = Inr h"
  by (simp add: upb_msg_unref_def)

text \<open>
  Claim C3. \<open>clear\<close> zeroes the whole presence bitset, so that \<open>has\<close> is false
  afterwards for every field whose presence bit lies in the bitset, and changes nothing
  else: the bytes of the data block after the bitset are as before, every other object
  of the heap is as before, no reference count changes and no destructor runs.
\<close>

theorem upb_msg_clear_frame:
  assumes "get_msg m h = Inr d" and "set_flags_bytes md \<le> length d"
  shows "\<exists>h' d'. upb_msg_clear m md h = Inr h' \<and> get_msg m h' = Inr d'
           \<and> (\<forall>f. field_index f div 8 < set_flags_bytes md \<longrightarrow> upb_msg_has m f h' = Inr False)
           \<and> length d' = length d
           \<and> (\<forall>i. set_flags_bytes md \<le> i \<longrightarrow> i < length d \<longrightarrow> d' ! i = d ! i)
           \<and> (\<forall>p. p \<noteq> m \<longrightarrow> objs h' p = objs h p)
           \<and> (\<forall>p. rc h' p = rc h p)
           \<and> freed h' = freed h \<and> brk h' = brk h"
proof -
  let ?n = "set_flags_bytes md"
  let ?d' = "replicate ?n 0 @ drop ?n d"
  from put_msg_Inr [OF assms(1), of ?d'] obtain ob where
    ob: "objs h m = Some ob" and
    put: "put_msg m ?d' h = Inr (h\<lparr>objs := (objs h)(m \<mapsto> ob\<lparr>body := Msg ?d'\<rparr>)\<rparr>)"
    by blast
  let ?h' = "h\<lparr>objs := (objs h)(m \<mapsto> ob\<lparr>body := Msg ?d'\<rparr>)\<rparr>"
  have m0: "m \<noteq> 0" using assms(1) by (simp add: get_msg_Inr)
  have clear: "upb_msg_clear m md h = Inr ?h'"
    using assms put by (simp add: upb_msg_clear_def)
  have get': "get_msg m ?h' = Inr ?d'"
    using m0 by (simp add: get_msg_Inr)
  have has: "upb_msg_has m f ?h' = Inr False" if "field_index f div 8 < ?n" for f
  proof -
    have "field_index f div 8 < length ?d'" using that assms(2) by simp
    moreover have "?d' ! (field_index f div 8) = 0" using that by (simp add: nth_append)
    ultimately show ?thesis using upb_msg_has_bit [OF get'] by simp
  qed
  have len: "length ?d' = length d" using assms(2) by simp
  have frame: "?d' ! i = d ! i" if "?n \<le> i" "i < length d" for i
    using that by (simp add: nth_append)
  have rcs: "rc ?h' p = rc h p" for p
    using ob by (simp add: rc_def)
  show ?thesis
    using clear get' has len frame rcs by (intro exI [of _ ?h'] exI [of _ ?d']) simp
qed

theorem upb_msg_clear_frame_witness:
  "get_msg 1 h_msg = Inr d_ex \<and> set_flags_bytes md_ex \<le> length d_ex
   \<and> upb_msg_has 1 f_int h_msg = Inr True
   \<and> (\<exists>h'. upb_msg_clear 1 md_ex h_msg = Inr h' \<and> upb_msg_has 1 f_int h' = Inr False
         \<and> upb_msg_get 1 f_int h' = Inr 7
         \<and> rc h' 1 = Some 1 \<and> freed h' = [])"
proof -
  have g: "get_msg 1 h_msg = Inr d_ex" by (rule get_msg_ex)
  have l: "set_flags_bytes md_ex \<le> length d_ex" by (simp add: md_ex_def d_ex_def)
  have i: "field_index f_int div 8 < set_flags_bytes md_ex" by (simp add: md_ex_def f_int_def)
  have b: "upb_msg_has 1 f_int h_msg = Inr True"
    by (simp add: upb_msg_has_bit [OF g] d_ex_def f_int_def)
  from upb_msg_clear_frame [OF g l] obtain h' where
    "upb_msg_clear 1 md_ex h_msg = Inr h'" "upb_msg_has 1 f_int h' = Inr False"
    "rc h' 1 = rc h_msg 1" "freed h' = freed h_msg"
    using i by blast
  moreover have "rc h_msg 1 = Some 1" "freed h_msg = []" by (simp_all add: rc_def h_msg_def)
  moreover have "upb_msg_get 1 f_int h' = Inr 7"
    using \<open>upb_msg_has 1 f_int h' = Inr False\<close> by (simp add: upb_msg_get_def f_int_def)
  ultimately show ?thesis using g l b by auto
qed

text \<open>
  Claim C7. \<open>get\<close> returns the value stored at the field's byte offset, read with
  the field's type, when the presence bit of the field is set, and the field's default
  value when the bit is not set. Here \<open>d\<close> is the data block of the message: the
  presence bit of field index \<open>i\<close> is bit \<open>i mod 8\<close> of byte \<open>i div 8\<close>.
\<close>

theorem upb_msg_get_present_or_default:
  assumes "get_msg m h = Inr d" and "field_index f div 8 < length d"
  shows "(bit (d ! (field_index f div 8)) (field_index f mod 8) \<longrightarrow>
            byte_offset f + type_size (ftype f) \<le> length d \<longrightarrow>
            upb_msg_get m f h
              = Inr (of_nat (le_nat (take (type_size (ftype f)) (drop (byte_offset f) d)))))
       \<and> (\<not> bit (d ! (field_index f div 8)) (field_index f mod 8) \<longrightarrow>
            upb_msg_get m f h = Inr (default_value f))"
  using assms
  by (simp add: upb_msg_get_def upb_msg_has_bit upb_msg_getptr_def upb_value_read_msg)

theorem upb_msg_get_present_or_default_witness:
  "get_msg 1 h_msg = Inr d_ex \<and> field_index f_int div 8 < length d_ex
   \<and> bit (d_ex ! (field_index f_int div 8)) (field_index f_int mod 8)
   \<and> byte_offset f_int + type_size (ftype f_int) \<le> length d_ex
   \<and> upb_msg_get 1 f_int h_msg = Inr 42
   \<and> field_index f_sub div 8 < length d_ex
   \<and> \<not> bit (d_ex ! (field_index f_sub div 8)) (field_index f_sub mod 8)
   \<and> upb_msg_get 1 f_sub h_msg = Inr 0"
  using upb_msg_get_present_or_default [of 1 h_msg d_ex f_int]
    upb_msg_get_present_or_default [of 1 h_msg d_ex f_sub]
  by (simp add: get_msg_ex d_ex_def f_int_def f_sub_def)

text \<open>
  Claim C6, as the model of \<open>set\<close> has it. The field lies in the data block of the
  message and its bytes do not hold its own presence bit; \<open>x\<close> fits the width of the
  field's type. \<open>old\<close> is the value in the field before the call and \<open>h1\<close> the heap
  once the reference of a present managed field is released (the count of \<open>old\<close> one
  lower and, when it was 1, what the destructor \<open>_upb_field_free\<close> then returns). For
  an unmanaged field, and for a managed field when \<open>x\<close> is non-null and is live in
  \<open>h1\<close>, as the message is: immediately after \<open>set(m, f, x)\<close>, \<open>has(m, f)\<close> is
  true and \<open>get(m, f)\<close> is \<open>x\<close>, the same bits, so the same scalar or the same
  object.
\<close>

theorem upb_msg_set_then_get:
  assumes m: "get_msg m h = Inr d"
    and idx: "field_index f div 8 < length d"
    and off: "byte_offset f + type_size (ftype f) \<le> length d"
    and disj: "field_index f div 8 < byte_offset f
               \<or> byte_offset f + type_size (ftype f) \<le> field_index f div 8"
    and fits: "unat x < 256 ^ type_size (ftype f)"
    and pres: "upb_msg_has m f h = Inr present"
    and old: "upb_value_read (upb_msg_getptr m f) (ftype f) h = Inr old"
    and rel: "upb_field_ismm f \<longrightarrow>
                (present \<and> old \<noteq> 0 \<longrightarrow> rc h old = Some co)
                \<and> (if present \<and> old \<noteq> 0 \<and> co = 1
                    then upb_field_free D old f (add_rc (- 1) old h) = Inr h1
                    else h1 = (if present \<and> old \<noteq> 0 then add_rc (- 1) old h else h))"
    and live: "upb_field_ismm f \<longrightarrow> x \<noteq> 0 \<and> rc h1 x = Some c \<and> get_msg m h1 = Inr d"
  shows "\<exists>h'. upb_msg_set D m f x h = Inr h'
           \<and> upb_msg_has m f h' = Inr True \<and> upb_msg_get m f h' = Inr x"
proof (cases "upb_field_ismm f")
  case False
  with write_then_sethas [OF m idx off disj fits] show ?thesis
    by (simp add: upb_msg_set_def)
next
  case True
  with rel live have oc: "present \<and> old \<noteq> 0 \<longrightarrow> rc h old = Some co"
    and h1: "if present \<and> old \<noteq> 0 \<and> co = 1
             then upb_field_free D old f (add_rc (- 1) old h) = Inr h1
             else h1 = (if present \<and> old \<noteq> 0 then add_rc (- 1) old h else h)"
    and x0: "x \<noteq> 0" and xc: "rc h1 x = Some c" and m1: "get_msg m h1 = Inr d"
    by simp_all
  have rel1: "(if present
              then bindE (upb_value_read (upb_msg_getptr m f) (ftype f) h) (\<lambda>old.
                     upb_field_unref D old f h)
              else Inr h) = Inr h1"
  proof (cases present)
    case False
    with h1 show ?thesis by simp
  next
    case P: True
    with oc have "old \<noteq> 0 \<longrightarrow> rc h old = Some co" by simp
    from upb_field_unref_cases [OF True this, of D] h1 P old show ?thesis
      by (simp split: if_splits)
  qed
  have ref: "upb_value_ref x h1 = Inr (add_rc 1 x h1)"
    by (rule upb_value_ref_add [OF x0 xc])
  have m2: "get_msg m (add_rc 1 x h1) = Inr d" using m1 by (simp add: get_msg_bodies)
  from write_then_sethas [OF m2 idx off disj fits] obtain h' where
    h': "bindE (upb_value_write (upb_msg_getptr m f) x (ftype f) (add_rc 1 x h1))
           (upb_msg_sethas m f) = Inr h'"
       "upb_msg_has m f h' = Inr True" "upb_msg_get m f h' = Inr x"
    by blast
  have "upb_msg_set D m f x h = Inr h'"
    using True pres rel1 ref h'(1) by (simp add: upb_msg_set_def)
  with h' show ?thesis by simp
qed

theorem upb_msg_set_then_get_witness:
  "get_msg 1 h_own = Inr d_own
   \<and> \<not> upb_field_ismm f_int \<and> unat (99 :: 64 word) < 256 ^ type_size (ftype f_int)
   \<and> (\<exists>h'. upb_msg_set leaf_destructors 1 f_int 99 h_own = Inr h'
          \<and> upb_msg_has 1 f_int h' = Inr True \<and> upb_msg_get 1 f_int h' = Inr 99)
   \<and> upb_field_ismm f_sub \<and> upb_msg_has 1 f_sub h_own = Inr True
   \<and> upb_msg_get 1 f_sub h_own = Inr 2 \<and> rc h_own 2 = Some 1 \<and> rc h_own 3 = Some 2
   \<and> (\<exists>h'. upb_msg_set leaf_destructors 1 f_sub 3 h_own = Inr h'
          \<and> upb_msg_has 1 f_sub h' = Inr True \<and> upb_msg_get 1 f_sub h' = Inr 3)"
proof -
  let ?g = "add_rc (- 1) 2 h_own"
  let ?h1 = "\<lparr>objs = (objs ?g)(2 := None), freed = [2], brk = 4\<rparr>"
  note m = get_msg_h_own
  have mm: "\<not> upb_field_ismm f_int" "upb_field_ismm f_sub" by (simp_all add: f_sub_def f_int_def)
  have i0: "field_index f_int div 8 < length d_own" and i1: "field_index f_sub div 8 < length d_own"
    by (simp_all add: f_int_def f_sub_def d_own_def)
  have o0: "byte_offset f_int + type_size (ftype f_int) \<le> length d_own"
    and o1: "byte_offset f_sub + type_size (ftype f_sub) \<le> length d_own"
    by (simp_all add: f_int_def f_sub_def d_own_def)
  have d0: "field_index f_int div 8 < byte_offset f_int
               \<or> byte_offset f_int + type_size (ftype f_int) \<le> field_index f_int div 8"
    and d1: "field_index f_sub div 8 < byte_offset f_sub
               \<or> byte_offset f_sub + type_size (ftype f_sub) \<le> field_index f_sub div 8"
    by (simp_all add: f_int_def f_sub_def)
  have x0: "unat (99 :: 64 word) < 256 ^ type_size (ftype f_int)"
    and x1: "unat (3 :: 64 word) < 256 ^ type_size (ftype f_sub)"
    by (simp_all add: f_int_def f_sub_def)
  have p0: "upb_msg_has 1 f_int h_own = Inr True"
    by (simp add: upb_msg_has_bit [OF m i0]) (simp add: f_int_def d_own_def)
  have p1: "upb_msg_has 1 f_sub h_own = Inr True"
    by (simp add: upb_msg_has_bit [OF m i1]) (simp add: f_sub_def d_own_def)
  have old0: "upb_value_read (upb_msg_getptr 1 f_int) (ftype f_int) h_own = Inr 42"
    by (simp add: upb_value_read_def upb_msg_getptr_def deref_def h_own_def f_int_def d_own_def)
  have old1: "upb_value_read (upb_msg_getptr 1 f_sub) (ftype f_sub) h_own = Inr 2"
    by (simp add: upb_value_read_def upb_msg_getptr_def deref_def h_own_def f_sub_def d_own_def)
  have g1: "upb_msg_get 1 f_sub h_own = Inr 2"
    using p1 old1 by (simp add: upb_msg_get_def)
  have free: "upb_field_free leaf_destructors 2 f_sub ?g = Inr ?h1"
    by (simp add: leaf_destructors_def free_block_def add_rc_def h_own_def)
  have rc1: "rc ?h1 3 = Some 2"
    by (simp add: rc_def add_rc_def h_own_def)
  have m1: "get_msg 1 ?h1 = Inr d_own"
    by (simp add: get_msg_def deref_def add_rc_def h_own_def)
  have r0: "upb_field_ismm f_int \<longrightarrow>
                (True \<and> (42 :: 64 word) \<noteq> 0 \<longrightarrow> rc h_own 42 = Some 1)
                \<and> (if True \<and> (42 :: 64 word) \<noteq> 0 \<and> (1 :: int) = 1
                    then upb_field_free leaf_destructors 42 f_int (add_rc (- 1) 42 h_own) = Inr h_own
                    else h_own = (if True \<and> (42 :: 64 word) \<noteq> 0 then add_rc (- 1) 42 h_own
                                  else h_own))"
    using mm by simp
  have l0: "upb_field_ismm f_int \<longrightarrow>
              (99 :: 64 word) \<noteq> 0 \<and> rc h_own 99 = Some 0 \<and> get_msg 1 h_own = Inr d_own"
    using mm by simp
  have r1: "upb_field_ismm f_sub \<longrightarrow>
                (True \<and> (2 :: 64 word) \<noteq> 0 \<longrightarrow> rc h_own 2 = Some 1)
                \<and> (if True \<and> (2 :: 64 word) \<noteq> 0 \<and> (1 :: int) = 1
                    then upb_field_free leaf_destructors 2 f_sub (add_rc (- 1) 2 h_own) = Inr ?h1
                    else ?h1 = (if True \<and> (2 :: 64 word) \<noteq> 0 then add_rc (- 1) 2 h_own
                                else h_own))"
    using free by (simp add: rc_h_own)
  have l1: "upb_field_ismm f_sub \<longrightarrow>
              (3 :: 64 word) \<noteq> 0 \<and> rc ?h1 3 = Some 2 \<and> get_msg 1 ?h1 = Inr d_own"
    using rc1 m1 by simp
  from upb_msg_set_then_get [OF m i0 o0 d0 x0 p0 old0 r0 l0]
    upb_msg_set_then_get [OF m i1 o1 d1 x1 p1 old1 r1 l1]
  show ?thesis using m mm x0 p1 g1 by (simp add: rc_h_own)
qed

text \<open>
  Claim C6 as stated fails for a managed field on a null value, where
  \<open>_upb_value_ref\<close> dereferences the null pointer, and on the value that the present
  field itself holds as its only reference: the release destroys it before the reference
  is taken.
\<close>

theorem upb_msg_set_counterexample:
  "upb_msg_set leaf_destructors 1 f_sub 0 h_ex = Inl Null_deref
   \<and> upb_msg_set leaf_destructors 1 f_sub 2 h_own = Inl Dangling"
  by (simp add: upb_msg_set_def upb_msg_has_def get_msg_def deref_def upb_msg_getptr_def
      upb_value_read_def upb_field_unref_def upb_atomic_unref_def upb_value_ref_def
      upb_atomic_ref_def leaf_destructors_def free_block_def h_ex_def h_own_def d_ex_def
      d_own_def f_sub_def)

section \<open>The recycling allocator\<close>

text \<open>
  Claim C4. Given a slot and its current value \<open>v\<close> of the expected managed type:
  if \<open>v\<close> is non-null with reference count 1, \<open>tryRecycle\<close> returns \<open>v\<close>
  itself, and nothing is allocated, released or destroyed; if \<open>v\<close> is null or shared
  (count above 1), it returns a different value, the address of a newly allocated default
  instance with count 1 that was not live before, stores it in the slot, and releases the
  previous reference: the count of \<open>v\<close> goes down by one. In the second case the type
  is a managed one, the allocator has an unused address left and the slot lies in the
  storage of a live object.
\<close>

theorem upb_field_tryrecycle_policy:
  "(v \<noteq> 0 \<and> objs h v = Some ob \<and> has_type t (body ob) \<and> refcount ob = 1
      \<and> (\<forall>d. body ob = Msg d \<longrightarrow> set_flags_bytes (subdef f) \<le> length d)
    \<longrightarrow> (\<exists>h'. upb_field_tryrecycle D p v f t h = Inr (v, h')
            \<and> rc h' = rc h \<and> freed h' = freed h \<and> brk h' = brk h))
 \<and> ((v = 0 \<or> (objs h v = Some ob \<and> has_type t (body ob) \<and> 1 < refcount ob))
      \<and> default_body t f = Some b0 \<and> brk h \<noteq> 0 \<and> rc h (brk h) = None
      \<and> p = Valueptr a off \<and> a \<noteq> 0 \<and> bodies h a = Some b \<and> storage b = Some bs
      \<and> off + type_size t \<le> length bs
    \<longrightarrow> (\<exists>v' h'. upb_field_tryrecycle D p v f t h = Inr (v', h')
            \<and> v' \<noteq> v \<and> v' \<noteq> 0 \<and> rc h v' = None
            \<and> rc h' v' = Some 1 \<and> bodies h' v' = Some b0
            \<and> (v \<noteq> 0 \<longrightarrow> rc h' v = Some (refcount ob - 1))
            \<and> freed h' = freed h
            \<and> upb_value_read p t h' = Inr v'))"
proof (intro conjI impI)
  assume A: "v \<noteq> 0 \<and> objs h v = Some ob \<and> has_type t (body ob) \<and> refcount ob = 1
      \<and> (\<forall>d. body ob = Msg d \<longrightarrow> set_flags_bytes (subdef f) \<le> length d)"
  then have d: "deref v h = Inr ob" by (simp add: deref_Inr)
  from reset_instance_effect [of v h ob f] A obtain h' where
    "reset_instance v f h = Inr h'" "rc h' = rc h" "freed h' = freed h" "brk h' = brk h"
    by blast
  with A d show "\<exists>h'. upb_field_tryrecycle D p v f t h = Inr (v, h')
            \<and> rc h' = rc h \<and> freed h' = freed h \<and> brk h' = brk h"
    by (simp add: upb_field_tryrecycle_def)
next
  assume B: "(v = 0 \<or> (objs h v = Some ob \<and> has_type t (body ob) \<and> 1 < refcount ob))
      \<and> default_body t f = Some b0 \<and> brk h \<noteq> 0 \<and> rc h (brk h) = None
      \<and> p = Valueptr a off \<and> a \<noteq> 0 \<and> bodies h a = Some b \<and> storage b = Some bs
      \<and> off + type_size t \<le> length bs"
  then have b0: "default_body t f = Some b0" and brk0: "brk h \<noteq> 0"
    and unused: "rc h (brk h) = None" and p: "p = Valueptr a off" and a0: "a \<noteq> 0"
    and ba: "bodies h a = Some b" and st: "storage b = Some bs"
    and off: "off + type_size t \<le> length bs"
    by simp_all
  show "\<exists>v' h'. upb_field_tryrecycle D p v f t h = Inr (v', h')
            \<and> v' \<noteq> v \<and> v' \<noteq> 0 \<and> rc h v' = None
            \<and> rc h' v' = Some 1 \<and> bodies h' v' = Some b0
            \<and> (v \<noteq> 0 \<longrightarrow> rc h' v = Some (refcount ob - 1))
            \<and> freed h' = freed h
            \<and> upb_value_read p t h' = Inr v'"
  proof (cases "v = 0")
    case True
    from fresh_effect [OF b0 brk0 unused a0 ba st off] obtain h' where
      "bindE (upb_field_new f t h) (\<lambda>(v', h2).
                 bindE (upb_value_write (Valueptr a off) v' t h2) (\<lambda>h3. Inr (v', h3)))
               = Inr (brk h, h')"
      "rc h' = (rc h)(brk h \<mapsto> 1)" "bodies h' (brk h) = Some b0" "freed h' = freed h"
      "upb_value_read (Valueptr a off) t h' = Inr (brk h)"
      by blast
    with True brk0 unused p show ?thesis
      by (intro exI [of _ "brk h"] exI [of _ h']) (simp add: upb_field_tryrecycle_def)
  next
    case False
    with B have ob: "objs h v = Some ob" and ty: "has_type t (body ob)"
      and sh: "1 < refcount ob" by simp_all
    have d: "deref v h = Inr ob" using False ob by (simp add: deref_Inr)
    have c: "rc h v = Some (refcount ob)" using ob by (simp add: rc_def)
    from upb_atomic_unref_effect [OF False c] obtain h1 where
      h1: "upb_atomic_unref v h = Inr (refcount ob = 1, h1)"
          "rc h1 = (rc h)(v \<mapsto> refcount ob - 1)" "bodies h1 = bodies h"
          "freed h1 = freed h" "brk h1 = brk h"
      by blast
    have vb: "v \<noteq> brk h" using c unused by auto
    have unused1: "rc h1 (brk h1) = None" using h1(2,5) unused vb by simp
    have brk1: "brk h1 \<noteq> 0" using brk0 h1(5) by simp
    have ba1: "bodies h1 a = Some b" using ba h1(3) by simp
    from fresh_effect [OF b0 brk1 unused1 a0 ba1 st off] obtain h' where
      h': "bindE (upb_field_new f t h1) (\<lambda>(v', h2).
                 bindE (upb_value_write (Valueptr a off) v' t h2) (\<lambda>h3. Inr (v', h3)))
               = Inr (brk h1, h')"
      "rc h' = (rc h1)(brk h1 \<mapsto> 1)" "bodies h' (brk h1) = Some b0" "freed h' = freed h1"
      "upb_value_read (Valueptr a off) t h' = Inr (brk h1)"
      by blast
    have "upb_field_tryrecycle D p v f t h = Inr (brk h, h')"
      using False d ty sh h1(1,5) h'(1) p by (simp add: upb_field_tryrecycle_def)
    with h' h1 vb brk0 unused p show ?thesis
      by (intro exI [of _ "brk h"] exI [of _ h']) simp
  qed
qed

theorem upb_field_tryrecycle_policy_witness:
  "objs h_ex 2 = Some \<lparr>refcount = 1, body = Msg (replicate 8 0)\<rparr>
   \<and> (\<exists>h'. upb_field_tryrecycle leaf_destructors (Valueptr 4 0) 2 f_sub T_message h_ex = Inr (2, h')
          \<and> rc h' = rc h_ex \<and> freed h' = [] \<and> brk h' = 5)
   \<and> objs h_ex 3 = Some \<lparr>refcount = 2, body = Msg (replicate 8 0)\<rparr>
   \<and> (\<exists>v' h'. upb_field_tryrecycle leaf_destructors (Valueptr 4 8) 3 f_sub T_message h_ex = Inr (v', h')
          \<and> v' \<noteq> 3 \<and> rc h_ex v' = None \<and> rc h' v' = Some 1 \<and> rc h' 3 = Some 1
          \<and> freed h' = [] \<and> upb_value_read (Valueptr 4 8) T_message h' = Inr v')"
proof -
  let ?ob2 = "\<lparr>refcount = 1, body = Msg (replicate 8 0)\<rparr>"
  let ?ob3 = "\<lparr>refcount = 2, body = Msg (replicate 8 0)\<rparr>"
  have A: "(2 :: 64 word) \<noteq> 0 \<and> objs h_ex 2 = Some ?ob2 \<and> has_type T_message (body ?ob2)
      \<and> refcount ?ob2 = 1
      \<and> (\<forall>d. body ?ob2 = Msg d \<longrightarrow> set_flags_bytes (subdef f_sub) \<le> length d)"
    by (auto simp: objs_h_ex f_sub_def)
  have B: "((3 :: 64 word) = 0
        \<or> (objs h_ex 3 = Some ?ob3 \<and> has_type T_message (body ?ob3) \<and> 1 < refcount ?ob3))
      \<and> default_body T_message f_sub = Some (Msg (replicate 8 0))
      \<and> brk h_ex \<noteq> 0 \<and> rc h_ex (brk h_ex) = None
      \<and> Valueptr 4 8 = Valueptr 4 8 \<and> (4 :: 64 word) \<noteq> 0
      \<and> bodies h_ex 4 = Some (Array arr_ex)
      \<and> storage (Array arr_ex) = Some (elements arr_ex)
      \<and> 8 + type_size T_message \<le> length (elements arr_ex)"
    by (simp add: objs_h_ex bodies_h_ex brk_h_ex) (simp add: f_sub_def arr_ex_def)
  from upb_field_tryrecycle_policy [where D = leaf_destructors and v = 2 and h = h_ex and ob = ?ob2 and t = T_message and f = f_sub
      and p = "Valueptr 4 0", THEN conjunct1, rule_format, OF A]
  have R1: "\<exists>h'. upb_field_tryrecycle leaf_destructors (Valueptr 4 0) 2 f_sub T_message h_ex = Inr (2, h')
          \<and> rc h' = rc h_ex \<and> freed h' = [] \<and> brk h' = 5"
    by (simp add: freed_h_ex brk_h_ex)
  from upb_field_tryrecycle_policy [where D = leaf_destructors and v = 3 and h = h_ex and ob = ?ob3 and t = T_message and f = f_sub
      and p = "Valueptr 4 8" and a = 4 and off = 8 and b = "Array arr_ex"
      and bs = "elements arr_ex" and ?b0.0 = "Msg (replicate 8 0)",
      THEN conjunct2, rule_format, OF B]
  have R2: "\<exists>v' h'. upb_field_tryrecycle leaf_destructors (Valueptr 4 8) 3 f_sub T_message h_ex = Inr (v', h')
          \<and> v' \<noteq> 3 \<and> rc h_ex v' = None \<and> rc h' v' = Some 1 \<and> rc h' 3 = Some 1
          \<and> freed h' = [] \<and> upb_value_read (Valueptr 4 8) T_message h' = Inr v'"
    by (simp add: freed_h_ex) blast
  from R1 R2 show ?thesis by (simp add: objs_h_ex)
qed

end
